theory Spec2Isabelle
  imports Main
begin

section \<open>Common values\<close>

text \<open>
  A JavaScript \<open>Date\<close> is modelled by its time value, the milliseconds since the epoch, as
  an \<open>int\<close>; comparing two dates with \<open>>\<close> and subtracting \<open>getTime()\<close> values are then the
  integer operations. Every \<open>new Date()\<close> and \<open>Date.now()\<close> of the source is a reading
  of the clock that the model takes as an argument.
\<close>

type_synonym Date = int

text \<open>
  Exceptions are values. \<open>Error\<close> is a \<open>throw new Error(msg)\<close> of the source,
  \<open>TypeError\<close> is the engine's exception on reading a property of \<open>undefined\<close> (it
  carries the property name), and \<open>LibraryError\<close> is an exception raised inside the graph
  library, whose code is not part of the repository.
\<close>

datatype error = Error string | TypeError string | LibraryError string

text \<open>
  A JavaScript \<open>Map\<close> iterates in insertion order, and \<open>set\<close> on a key it already holds
  replaces the value in place. It is an association list: \<open>get\<close> is \<open>map_of\<close>, \<open>has k\<close> is
  \<open>map_of m k \<noteq> None\<close>, and \<open>set\<close> is \<open>Map_set\<close>.
\<close>

fun Map_set :: "'k \<Rightarrow> 'v \<Rightarrow> ('k \<times> 'v) list \<Rightarrow> ('k \<times> 'v) list" where
  "Map_set k v [] = [(k, v)]"
| "Map_set k v ((k', v') # m) = (if k' = k then (k, v) # m else (k', v') # Map_set k v m)"

section \<open>The in-memory thread store\<close>

text \<open>\<open>thread-store.types.ts\<close>: the record and the two request objects.\<close>

record ThreadRecord =
  id_rec :: string
  userId :: string
  rootThreadId :: string
  threadId :: string
  graphType :: string
  createdAt :: Date
  lastUpdatedAt :: Date

record CreateThreadDto =
  userId :: string
  rootThreadId :: string
  threadId :: string
  graphType :: string
  createdAt :: "Date option"
  lastUpdatedAt :: "Date option"

record UpdateLastUpdatedDto =
  userId :: string
  threadId :: string
  lastUpdatedAt :: "Date option"

type_synonym store = "(string \<times> ThreadRecord) list"

definition makeKey :: "string \<Rightarrow> string \<Rightarrow> string" where
  "makeKey u t = u @ ''::'' @ t"

text \<open>
  \<open>InMemoryThreadStoreRepository.createThread\<close>. The argument \<open>now\<close> is the value of
  \<open>new Date()\<close>, read only when the request carries no \<open>createdAt\<close>. The result is the
  returned record and the store after the call.
\<close>

definition createThread :: "Date \<Rightarrow> store \<Rightarrow> CreateThreadDto \<Rightarrow> ThreadRecord \<times> store" where
  "createThread now st data =
     (let key = makeKey (CreateThreadDto.userId data) (CreateThreadDto.threadId data) in
      case map_of st key of
        Some existing \<Rightarrow> (existing, st)
      | None \<Rightarrow>
          (let createdAt' = (case CreateThreadDto.createdAt data of Some c \<Rightarrow> c | None \<Rightarrow> now);
               lastUpdatedAt' =
                 (case CreateThreadDto.lastUpdatedAt data of Some l \<Rightarrow> l | None \<Rightarrow> createdAt');
               record = \<lparr> id_rec = key,
                          ThreadRecord.userId = CreateThreadDto.userId data,
                          ThreadRecord.rootThreadId = CreateThreadDto.rootThreadId data,
                          ThreadRecord.threadId = CreateThreadDto.threadId data,
                          ThreadRecord.graphType = CreateThreadDto.graphType data,
                          ThreadRecord.createdAt = createdAt',
                          ThreadRecord.lastUpdatedAt = lastUpdatedAt' \<rparr>
           in (record, Map_set key record st)))"

definition findThreadsByUser :: "store \<Rightarrow> string \<Rightarrow> ThreadRecord list" where
  "findThreadsByUser st u = filter (\<lambda>r. ThreadRecord.userId r = u) (map snd st)"

definition findByUserAndThread :: "store \<Rightarrow> string \<Rightarrow> string \<Rightarrow> ThreadRecord option" where
  "findByUserAndThread st u t = map_of st (makeKey u t)"

text \<open>
  \<open>InMemoryThreadStoreRepository.updateLastUpdatedAt\<close>. When the key has no record,
  \<open>current\<close> is \<open>undefined\<close>; the branch evaluates the object literal, whose second
  property reads \<open>current.userId\<close>, and that read throws before \<open>store.set\<close> is reached.
\<close>

definition updateLastUpdatedAt ::
    "Date \<Rightarrow> store \<Rightarrow> UpdateLastUpdatedDto \<Rightarrow> (error + ThreadRecord) \<times> store" where
  "updateLastUpdatedAt now st data =
     (let key = makeKey (UpdateLastUpdatedDto.userId data) (UpdateLastUpdatedDto.threadId data) in
      case map_of st key of
        None \<Rightarrow> (Inl (TypeError ''userId''), st)
      | Some current \<Rightarrow>
          (let updated = current \<lparr> ThreadRecord.lastUpdatedAt :=
                 (case UpdateLastUpdatedDto.lastUpdatedAt data of Some l \<Rightarrow> l | None \<Rightarrow> now) \<rparr>
           in (Inr updated, Map_set key updated st)))"

section \<open>The thread store service\<close>

text \<open>
  \<open>ThreadStoreService\<close> forwards to the repository. Each method reads the clock once
  (\<open>new Date()\<close>, the argument \<open>now\<close>); the requests it builds always carry their
  dates, so the repository does not read the clock again.
\<close>

definition readThreadsByUser :: "store \<Rightarrow> string \<Rightarrow> ThreadRecord list" where
  "readThreadsByUser st u = findThreadsByUser st u"

definition updateLastUpdatedAtFor ::
    "Date \<Rightarrow> store \<Rightarrow> string \<Rightarrow> string \<Rightarrow> Date option \<Rightarrow> (error + ThreadRecord) \<times> store" where
  "updateLastUpdatedAtFor now st u t at =
     updateLastUpdatedAt now st
       \<lparr> UpdateLastUpdatedDto.userId = u, threadId = t,
         lastUpdatedAt = Some (case at of Some a \<Rightarrow> a | None \<Rightarrow> now) \<rparr>"

definition ThreadStoreService_createThread ::
    "Date \<Rightarrow> store \<Rightarrow> CreateThreadDto \<Rightarrow> ThreadRecord \<times> store" where
  "ThreadStoreService_createThread now st input =
     (let createdAt' = (case CreateThreadDto.createdAt input of Some c \<Rightarrow> c | None \<Rightarrow> now);
          lastUpdatedAt' =
            (case CreateThreadDto.lastUpdatedAt input of Some l \<Rightarrow> l | None \<Rightarrow> createdAt')
      in createThread now st
           (input \<lparr> CreateThreadDto.createdAt := Some createdAt',
                    CreateThreadDto.lastUpdatedAt := Some lastUpdatedAt' \<rparr>))"

section \<open>The orchestrator: thread lifecycle\<close>

record GraphThreadCountAndMostRecentDate =
  count :: int
  lastUpdatedAt :: Date
  lastUpdatedThreadId :: string
  lastUpdatedRootId :: string

record ThreadAndRoot =
  threadId :: string
  rootId :: string

type_synonym threadTypeCounts = "(string \<times> GraphThreadCountAndMostRecentDate) list"

text \<open>The body of the loop of \<open>findThreadTypeCountsByUser\<close>, for one record.\<close>

definition countThread :: "threadTypeCounts \<Rightarrow> ThreadRecord \<Rightarrow> threadTypeCounts" where
  "countThread graphsCountAndLastUpdated item =
     (case map_of graphsCountAndLastUpdated (ThreadRecord.graphType item) of
        None \<Rightarrow>
          Map_set (ThreadRecord.graphType item)
            \<lparr> count = 1,
              lastUpdatedAt = ThreadRecord.lastUpdatedAt item,
              lastUpdatedThreadId = ThreadRecord.threadId item,
              lastUpdatedRootId = ThreadRecord.rootThreadId item \<rparr>
            graphsCountAndLastUpdated
      | Some existing \<Rightarrow>
          (let updated =
                 \<lparr> count = count existing + 1,
                   lastUpdatedAt = GraphThreadCountAndMostRecentDate.lastUpdatedAt existing,
                   lastUpdatedThreadId = lastUpdatedThreadId existing,
                   lastUpdatedRootId = lastUpdatedRootId existing \<rparr>;
               updated' =
                 (if ThreadRecord.lastUpdatedAt item
                       > GraphThreadCountAndMostRecentDate.lastUpdatedAt existing
                  then updated
                         \<lparr> GraphThreadCountAndMostRecentDate.lastUpdatedAt :=
                             ThreadRecord.lastUpdatedAt item,
                           lastUpdatedThreadId := ThreadRecord.threadId item,
                           lastUpdatedRootId := ThreadRecord.rootThreadId item \<rparr>
                  else updated)
           in Map_set (ThreadRecord.graphType item) updated' graphsCountAndLastUpdated))"

definition findThreadTypeCountsByUser :: "store \<Rightarrow> string \<Rightarrow> threadTypeCounts" where
  "findThreadTypeCountsByUser st u = foldl countThread [] (readThreadsByUser st u)"

text \<open>
  The template literal \<open>`thread_${Date.now()}_...`\<close> prints the clock reading in
  decimal.
\<close>

fun digits :: "nat \<Rightarrow> string" where
  "digits n = (if n < 10 then [''0123456789'' ! n]
               else digits (n div 10) @ [''0123456789'' ! (n mod 10)])"

definition Number_toString :: "int \<Rightarrow> string" where
  "Number_toString i = (if i < 0 then ''-'' @ digits (nat (- i)) else digits (nat i))"

text \<open>
  \<open>makeNewThread\<close>. \<open>dateNow\<close> is the value of \<open>Date.now()\<close>, \<open>random36\<close> the string
  \<open>Math.random().toString(36)\<close> (its \<open>substring(7)\<close> is \<open>drop 7\<close>), and \<open>now\<close> the clock
  reading of the store service.
\<close>

definition newThreadIdRandomPart :: "Date \<Rightarrow> string \<Rightarrow> string" where
  "newThreadIdRandomPart dateNow random36 =
     ''thread_'' @ Number_toString dateNow @ ''_'' @ drop 7 random36"

definition makeNewThread ::
    "Date \<Rightarrow> string \<Rightarrow> Date \<Rightarrow> store \<Rightarrow> string \<Rightarrow> string \<Rightarrow> ThreadAndRoot \<times> store" where
  "makeNewThread dateNow random36 now st u g =
     (let rootId' = ''root_'' @ newThreadIdRandomPart dateNow random36;
          threadId' = g @ ''_'' @ newThreadIdRandomPart dateNow random36;
          (created, st') =
             ThreadStoreService_createThread now st
               \<lparr> CreateThreadDto.userId = u, rootThreadId = rootId', threadId = threadId',
                 graphType = g, createdAt = None, lastUpdatedAt = None \<rparr>
      in (\<lparr> threadId = ThreadRecord.threadId created,
             rootId = ThreadRecord.rootThreadId created \<rparr>, st'))"

text \<open>
  \<open>getThreadId\<close>: with history for the graph type, touch the summary's thread and return
  its ids; without, make a new thread. An exception of the store passes through.
\<close>

definition getThreadId ::
    "Date \<Rightarrow> string \<Rightarrow> Date \<Rightarrow> store \<Rightarrow> string \<Rightarrow> string \<Rightarrow> threadTypeCounts
       \<Rightarrow> (error + ThreadAndRoot) \<times> store" where
  "getThreadId dateNow random36 now st u g threadTypeCountsByUser =
     (case map_of threadTypeCountsByUser g of
        Some h \<Rightarrow>
          (case updateLastUpdatedAtFor now st u (lastUpdatedThreadId h) None of
             (Inl e, st') \<Rightarrow> (Inl e, st')
           | (Inr _, st') \<Rightarrow>
               (Inr \<lparr> threadId = lastUpdatedThreadId h, rootId = lastUpdatedRootId h \<rparr>, st'))
      | None \<Rightarrow>
          (case makeNewThread dateNow random36 now st u g of
             (ids, st') \<Rightarrow> (Inr ids, st')))"

section \<open>The orchestrator: scoring and selection\<close>

text \<open>
  \<open>select-graph-config.json\<close> is not among the sources; its five numbers are the fields
  of the configuration the functions take. Points and milliseconds are integers.
\<close>

record SelectGraphConfig =
  fiveMinutes :: int
  pointsForThread :: int
  pointsForRecent :: int
  pointsForWordMatch :: int
  pointsForKeyWordMatch :: int

text \<open>\<open>String.prototype.startsWith\<close> and \<open>String.prototype.includes\<close> (\<open>includes_str\<close>).\<close>

fun startsWith :: "string \<Rightarrow> string \<Rightarrow> bool" where
  "startsWith s [] = True"
| "startsWith [] (c # w) = False"
| "startsWith (a # s) (c # w) = (a = c \<and> startsWith s w)"

fun includes_str :: "string \<Rightarrow> string \<Rightarrow> bool" where
  "includes_str [] w = (w = [])"
| "includes_str (a # s) w = (startsWith (a # s) w \<or> includes_str s w)"

text \<open>The callback of \<open>arr.reduce\<close>, and the reduction from 0.\<close>

definition scoreWord :: "SelectGraphConfig \<Rightarrow> string \<Rightarrow> int \<Rightarrow> string \<Rightarrow> int" where
  "scoreWord cfg message acc word =
     (if \<not> includes_str message word then acc
      else acc + (if startsWith word ''@'' then pointsForKeyWordMatch cfg
                  else pointsForWordMatch cfg))"

definition countWords :: "SelectGraphConfig \<Rightarrow> string \<Rightarrow> string list \<Rightarrow> int" where
  "countWords cfg message arr = foldl (scoreWord cfg message) 0 arr"

text \<open>
  The first loop, over \<open>Object.entries(graphsAndSelectionWords)\<close>: the list of the
  registry's names with their selection words, in the engine's property order.
\<close>

definition wordScores ::
    "SelectGraphConfig \<Rightarrow> string \<Rightarrow> (string \<times> string list) list \<Rightarrow> (string \<times> int) list" where
  "wordScores cfg message graphsAndSelectionWords =
     foldl (\<lambda>scores (key, arr). Map_set key (countWords cfg message arr) scores)
       [] graphsAndSelectionWords"

text \<open>
  The second loop, over \<open>Object.keys(graphsAndSelectionWords)\<close>. \<open>Date.now()\<close> is read
  once for every name that has history: \<open>clock n\<close> is the \<open>n\<close>-th reading of the call, and
  the loop carries the number of readings made so far. Every key was stored by the first
  loop, so \<open>scores.get(key)\<close> is a number; the model leaves the scores alone otherwise.
\<close>

definition historyStep ::
    "SelectGraphConfig \<Rightarrow> (nat \<Rightarrow> Date) \<Rightarrow> threadTypeCounts
       \<Rightarrow> (string \<times> int) list \<times> nat \<Rightarrow> string \<Rightarrow> (string \<times> int) list \<times> nat" where
  "historyStep cfg clock threadTypeCountsByUser state key =
     (case state of (scores, reads) \<Rightarrow>
        (case map_of threadTypeCountsByUser key of
           None \<Rightarrow> (scores, reads)
         | Some threadHistory \<Rightarrow>
             (case map_of scores key of
                None \<Rightarrow> (scores, Suc reads)
              | Some updateScore \<Rightarrow>
                  (let threadCount = count threadHistory;
                       lastUpdated = GraphThreadCountAndMostRecentDate.lastUpdatedAt threadHistory;
                       updateScore1 = updateScore + threadCount * pointsForThread cfg;
                       updateScore2 =
                         (if clock reads - lastUpdated < fiveMinutes cfg
                          then updateScore1 + pointsForRecent cfg else updateScore1)
                   in (Map_set key updateScore2 scores, Suc reads)))))"

definition computeScores ::
    "SelectGraphConfig \<Rightarrow> (nat \<Rightarrow> Date) \<Rightarrow> string \<Rightarrow> (string \<times> string list) list
       \<Rightarrow> threadTypeCounts \<Rightarrow> (string \<times> int) list" where
  "computeScores cfg clock message graphsAndSelectionWords threadTypeCountsByUser =
     fst (foldl (historyStep cfg clock threadTypeCountsByUser)
            (wordScores cfg message graphsAndSelectionWords, 0)
            (map fst graphsAndSelectionWords))"

text \<open>
  The last loop. \<open>maxScore\<close> starts at \<open>-Infinity\<close>, which is \<open>None\<close> here: every number is
  greater. The result is \<open>maxKey\<close>, \<open>undefined\<close> (\<open>None\<close>) when there is no graph.
\<close>

definition maxStep :: "string option \<times> int option \<Rightarrow> string \<times> int \<Rightarrow> string option \<times> int option" where
  "maxStep state entry =
     (case (state, entry) of ((maxKey, maxScore), (key, value)) \<Rightarrow>
        (if (case maxScore of None \<Rightarrow> True | Some m \<Rightarrow> value > m)
         then (Some key, Some value) else (maxKey, maxScore)))"

definition selectMax :: "(string \<times> int) list \<Rightarrow> string option" where
  "selectMax scores = fst (foldl maxStep (None, None) scores)"

definition scoreGraphsAndSelectOne ::
    "SelectGraphConfig \<Rightarrow> (nat \<Rightarrow> Date) \<Rightarrow> string \<Rightarrow> (string \<times> string list) list
       \<Rightarrow> threadTypeCounts \<Rightarrow> string option" where
  "scoreGraphsAndSelectOne cfg clock message graphsAndSelectionWords threadTypeCountsByUser =
     selectMax (computeScores cfg clock message graphsAndSelectionWords threadTypeCountsByUser)"

text \<open>
  The score as the specification writes it, for one graph: its selection words \<open>ws\<close>, its
  history \<open>h\<close> if it has one, and the clock reading \<open>now\<close>.
\<close>

definition specScore ::
    "SelectGraphConfig \<Rightarrow> Date \<Rightarrow> string \<Rightarrow> string list
       \<Rightarrow> GraphThreadCountAndMostRecentDate option \<Rightarrow> int" where
  "specScore cfg now message ws h =
     (\<Sum>w\<leftarrow>ws. if includes_str message w
              then (if startsWith w ''@'' then pointsForKeyWordMatch cfg else pointsForWordMatch cfg)
              else 0)
     + (case h of None \<Rightarrow> 0
        | Some hist \<Rightarrow>
            count hist * pointsForThread cfg
            + (if now - GraphThreadCountAndMostRecentDate.lastUpdatedAt hist < fiveMinutes cfg
               then pointsForRecent cfg else 0))"

section \<open>The graph builder service: registry and lazy compilation\<close>

record GraphJsonGraphSpec =
  name :: string
  annotationType :: "string option"
  nodes :: "string list option"
  edges :: "(string \<times> string) list option"
  selectionWords :: "string list option"

text \<open>
  \<open>annotationsMap\<close> is a plain object with the four annotations as its own properties.
  A read \<open>annotationsMap[k]\<close> finds the annotation of that name, or, for a name the
  object does not own, the property of that name that every plain object inherits from
  \<open>Object.prototype\<close> (a function, or the prototype itself for \<open>__proto__\<close>: a truthy
  value that is no annotation), or \<open>undefined\<close>.
\<close>

datatype annotationValue = AnnotationRoot string | InheritedProperty string

definition Object_prototype_properties :: "string list" where
  "Object_prototype_properties =
     [''constructor'', ''__defineGetter__'', ''__defineSetter__'', ''hasOwnProperty'',
      ''__lookupGetter__'', ''__lookupSetter__'', ''isPrototypeOf'', ''propertyIsEnumerable'',
      ''toString'', ''valueOf'', ''__proto__'', ''toLocaleString'']"

definition annotationsMap :: "string list" where
  "annotationsMap =
     [''ResearchGraphAnnotation'', ''MonetizationGraphAnnotation'',
      ''ConcurrentResearchGraphAnnotation'', ''DefaultGraphAnnotation'']"

definition annotationsMap_get :: "string \<Rightarrow> annotationValue option" where
  "annotationsMap_get k =
     (if k \<in> set annotationsMap then Some (AnnotationRoot k)
      else if k \<in> set Object_prototype_properties then Some (InheritedProperty k)
      else None)"

text \<open>
  The graph library (\<open>@langchain/langgraph\<close>) is outside the repository; the service
  uses its constructor, \<open>addNode\<close>, \<open>addEdge\<close>, \<open>compile\<close> and the two sentinels. They are
  the fields of a record the model takes as a parameter, so that nothing is assumed about
  them: each operation may throw (\<open>Inl\<close> with the message), \<open>'b\<close> is the builder and \<open>'c\<close>
  the compiled graph, and \<open>compile\<close> also returns the builder as it leaves it. \<open>'f\<close> is a
  node function of the service. The constructor is given what the read of
  \<open>annotationsMap\<close> found.
\<close>

record ('f, 'b, 'c) StateGraphLibrary =
  START :: string
  END :: string
  StateGraph_new :: "annotationValue \<Rightarrow> string + 'b"
  addNode :: "'b \<Rightarrow> string \<Rightarrow> 'f \<Rightarrow> string + 'b"
  addEdge :: "'b \<Rightarrow> string \<Rightarrow> string \<Rightarrow> string + 'b"
  compile :: "'b \<Rightarrow> (string + 'c) \<times> 'b"


record ('f, 'b, 'c) GraphBuilderService =
  dynamicGraphs :: "string \<rightharpoonup> 'c"
  dynamicGraphBuilders :: "string \<rightharpoonup> 'b"
  graphSelectionWords :: "string \<rightharpoonup> string list"
  nodeFuctionMap :: "string \<rightharpoonup> 'f"

definition quoted :: "string \<Rightarrow> string" where
  "quoted s = [CHR 0x27] @ s @ [CHR 0x27]"

definition notRegistered :: "string \<Rightarrow> string \<Rightarrow> error" where
  "notRegistered nodeName graphName =
     Error (''Node function '' @ quoted nodeName @ '' not registered for graph '' @ quoted graphName)"

text \<open>
  The loop over \<open>item.nodes\<close>: look the node function up, throw if there is none, add
  the node. \<open>nodeFn.bind(this)\<close> ties the function to the one service object; the model
  passes the function.
\<close>

fun addNodes ::
    "('f, 'b, 'c) StateGraphLibrary \<Rightarrow> ('f, 'b, 'c) GraphBuilderService \<Rightarrow> string \<Rightarrow> 'b
       \<Rightarrow> string list \<Rightarrow> error + 'b" where
  "addNodes lib s graphName builder [] = Inr builder"
| "addNodes lib s graphName builder (nodeName # rest) =
     (case nodeFuctionMap s nodeName of
        None \<Rightarrow> Inl (notRegistered nodeName graphName)
      | Some nodeFn \<Rightarrow>
          (case addNode lib builder nodeName nodeFn of
             Inl m \<Rightarrow> Inl (LibraryError m)
           | Inr builder' \<Rightarrow> addNodes lib s graphName builder' rest))"

text \<open>
  The loop over \<open>item.edges\<close>: the two tokens become the sentinels, any other endpoint
  is passed as it is.
\<close>

fun addEdges ::
    "('f, 'b, 'c) StateGraphLibrary \<Rightarrow> 'b \<Rightarrow> (string \<times> string) list \<Rightarrow> error + 'b" where
  "addEdges lib builder [] = Inr builder"
| "addEdges lib builder ((start, end') # rest) =
     (let startNode = (if start = ''__start__'' then START lib else start);
          endNode = (if end' = ''__end__'' then END lib else end')
      in case addEdge lib builder startNode endNode of
           Inl m \<Rightarrow> Inl (LibraryError m)
         | Inr builder' \<Rightarrow> addEdges lib builder' rest)"

text \<open>
  \<open>registerGraphFromSpec\<close>. A missing or empty \<open>annotationType\<close> (both falsy) and one
  for which the read of \<open>annotationsMap\<close> finds nothing log a warning and return; any
  value the read finds goes to the constructor. The two assignments at the end are the
  only writes.
\<close>

definition registerGraphFromSpec ::
    "('f, 'b, 'c) StateGraphLibrary \<Rightarrow> ('f, 'b, 'c) GraphBuilderService \<Rightarrow> GraphJsonGraphSpec
       \<Rightarrow> (error + unit) \<times> ('f, 'b, 'c) GraphBuilderService" where
  "registerGraphFromSpec lib s item =
     (case annotationType item of
        None \<Rightarrow> (Inr (), s)
      | Some annotationName \<Rightarrow>
          if annotationName = [] then (Inr (), s)
          else
            (case annotationsMap_get annotationName of
               None \<Rightarrow> (Inr (), s)
             | Some annotationRoot \<Rightarrow>
                 (case StateGraph_new lib annotationRoot of
                    Inl m \<Rightarrow> (Inl (LibraryError m), s)
                  | Inr builder \<Rightarrow>
                      (case addNodes lib s (name item) builder
                              (case nodes item of None \<Rightarrow> [] | Some ns \<Rightarrow> ns) of
                         Inl e \<Rightarrow> (Inl e, s)
                       | Inr builder1 \<Rightarrow>
                           (case addEdges lib builder1
                                   (case edges item of None \<Rightarrow> [] | Some es \<Rightarrow> es) of
                              Inl e \<Rightarrow> (Inl e, s)
                            | Inr builder2 \<Rightarrow>
                                (Inr (),
                                 s \<lparr> dynamicGraphBuilders :=
                                       (dynamicGraphBuilders s)(name item \<mapsto> builder2),
                                     graphSelectionWords :=
                                       (graphSelectionWords s)
                                         (name item \<mapsto>
                                            (case selectionWords item of
                                               None \<Rightarrow> [] | Some ws \<Rightarrow> ws)) \<rparr>))))))"

text \<open>
  \<open>getDynamicGraph\<close>. The result is \<open>this.dynamicGraphs[name]\<close> after the call: \<open>None\<close> is
  \<open>undefined\<close>, the not-found result. An exception of \<open>compile\<close> leaves the cache as it was.
\<close>

definition getDynamicGraph ::
    "('f, 'b, 'c) StateGraphLibrary \<Rightarrow> ('f, 'b, 'c) GraphBuilderService \<Rightarrow> string
       \<Rightarrow> (error + 'c option) \<times> ('f, 'b, 'c) GraphBuilderService" where
  "getDynamicGraph lib s graphName =
     (case dynamicGraphs s graphName of
        Some graph \<Rightarrow> (Inr (Some graph), s)
      | None \<Rightarrow>
          (case dynamicGraphBuilders s graphName of
             None \<Rightarrow> (Inr None, s)
           | Some builder \<Rightarrow>
               (case compile lib builder of
                  (Inl m, builder') \<Rightarrow>
                    (Inl (LibraryError m),
                     s \<lparr> dynamicGraphBuilders := (dynamicGraphBuilders s)(graphName \<mapsto> builder') \<rparr>)
                | (Inr compiled, builder') \<Rightarrow>
                    (Inr (Some compiled),
                     s \<lparr> dynamicGraphs := (dynamicGraphs s)(graphName \<mapsto> compiled),
                         dynamicGraphBuilders := (dynamicGraphBuilders s)(graphName \<mapsto> builder') \<rparr>))))"

definition getAllGraphsAndSelectionWords ::
    "('f, 'b, 'c) GraphBuilderService \<Rightarrow> (string \<rightharpoonup> string list)" where
  "getAllGraphsAndSelectionWords s = graphSelectionWords s"

text \<open>
  A library for running the service on concrete specs: the builder is the annotation
  name with the nodes and edges added so far, the constructor throws on a value that is
  no annotation and nothing else throws, and the compiled graph is the builder's content.
\<close>

record ('f) recordedGraph =
  annotation :: string
  graphNodes :: "(string \<times> 'f) list"
  graphEdges :: "(string \<times> string) list"

definition recordingLibrary :: "('f, 'f recordedGraph, 'f recordedGraph) StateGraphLibrary" where
  "recordingLibrary =
     \<lparr> START = ''__start__'', END = ''__end__'',
       StateGraph_new =
         (\<lambda>a. case a of
                AnnotationRoot n \<Rightarrow> Inr \<lparr> annotation = n, graphNodes = [], graphEdges = [] \<rparr>
              | InheritedProperty k \<Rightarrow> Inl ''Invalid StateGraph input.''),
       addNode = (\<lambda>b n f. Inr (b \<lparr> graphNodes := graphNodes b @ [(n, f)] \<rparr>)),
       addEdge = (\<lambda>b x y. Inr (b \<lparr> graphEdges := graphEdges b @ [(x, y)] \<rparr>)),
       compile = (\<lambda>b. (Inr b, b)) \<rparr>"

section \<open>The graph builder service: initial states\<close>

record Ids =
  activeThreadId :: string
  rootId :: string
  userId :: string

record OriginalDisclosure =
  nodeId :: string
  title :: string
  disclosureText :: string

text \<open>
  \<open>GraphState\<close> is a union of partial object types: an object with some of these
  properties. A property the object lacks is \<open>None\<close>; \<open>originalDisclosure: null\<close> is
  \<open>Some None\<close>. \<open>'m\<close> is a message and \<open>'v\<close> a value of type \<open>any\<close>.
\<close>

record ('m, 'v) GraphState =
  activeThreadId :: "string option"
  analysisResults :: "(string \<rightharpoonup> 'v) option"
  currentStep :: "string option"
  currentSteps :: "string list option"
  currentMonetizationAgent :: "string option"
  marketAnalysis :: "(string \<rightharpoonup> 'v) option"
  messages :: "'m list option"
  monetizationAgents :: "string list option"
  originalDisclosure :: "OriginalDisclosure option option"
  rootId :: "string option"
  userId :: "string option"

definition emptyObject :: "('m, 'v) GraphState" where
  "emptyObject =
     \<lparr> activeThreadId = None, analysisResults = None, currentStep = None, currentSteps = None,
       currentMonetizationAgent = None, marketAnalysis = None, messages = None,
       monetizationAgents = None, originalDisclosure = None, rootId = None, userId = None \<rparr>"

definition GRAPH_TYPES :: "string list" where
  "GRAPH_TYPES = [''monetizationGraph'', ''researchGraph'', ''concurrentResearchGraph'']"

definition makeMonetization :: "'m list \<Rightarrow> Ids \<Rightarrow> ('m, 'v) GraphState" where
  "makeMonetization msgs ids =
     emptyObject
       \<lparr> GraphState.activeThreadId := Some (Ids.activeThreadId ids),
         currentMonetizationAgent := Some [],
         marketAnalysis := Some Map.empty,
         messages := Some msgs,
         monetizationAgents := Some [],
         originalDisclosure := Some None,
         GraphState.rootId := Some (Ids.rootId ids),
         GraphState.userId := Some (Ids.userId ids) \<rparr>"

definition makeResearch :: "'m list \<Rightarrow> Ids \<Rightarrow> ('m, 'v) GraphState" where
  "makeResearch msgs ids =
     emptyObject
       \<lparr> GraphState.activeThreadId := Some (Ids.activeThreadId ids),
         analysisResults := Some Map.empty,
         currentStep := Some [],
         messages := Some msgs,
         GraphState.rootId := Some (Ids.rootId ids),
         GraphState.userId := Some (Ids.userId ids) \<rparr>"

definition makeConcurrentResearch :: "'m list \<Rightarrow> Ids \<Rightarrow> ('m, 'v) GraphState" where
  "makeConcurrentResearch msgs ids =
     emptyObject
       \<lparr> GraphState.activeThreadId := Some (Ids.activeThreadId ids),
         analysisResults := Some Map.empty,
         currentSteps := Some [],
         messages := Some msgs,
         GraphState.rootId := Some (Ids.rootId ids),
         GraphState.userId := Some (Ids.userId ids) \<rparr>"

definition makeDefault :: "'m list \<Rightarrow> Ids \<Rightarrow> ('m, 'v) GraphState" where
  "makeDefault msgs ids =
     emptyObject
       \<lparr> GraphState.activeThreadId := Some (Ids.activeThreadId ids),
         analysisResults := Some Map.empty,
         currentStep := Some [],
         messages := Some msgs,
         GraphState.rootId := Some (Ids.rootId ids),
         GraphState.userId := Some (Ids.userId ids) \<rparr>"

definition isGraphType :: "string \<Rightarrow> bool" where
  "isGraphType x = (x \<in> set GRAPH_TYPES)"

definition makeInitialState :: "string \<Rightarrow> 'm list \<Rightarrow> Ids \<Rightarrow> ('m, 'v) GraphState" where
  "makeInitialState graphType' msgs ids =
     (if graphType' = ''monetizationGraph'' then makeMonetization msgs ids
      else if graphType' = ''researchGraph'' then makeResearch msgs ids
      else if graphType' = ''concurrentResearchGraph'' then makeConcurrentResearch msgs ids
      else makeDefault msgs ids)"

definition getInitialStateRuntime :: "string \<Rightarrow> 'm list \<Rightarrow> Ids \<Rightarrow> ('m, 'v) GraphState" where
  "getInitialStateRuntime graphTypeStr msgs ids =
     (if \<not> isGraphType graphTypeStr then makeDefault msgs ids
      else makeInitialState graphTypeStr msgs ids)"

section \<open>The reducers of \<open>ConcurrentResearchGraphAnnotation\<close>\<close>

text \<open>
  \<open>messages\<close> and \<open>currentSteps\<close> reduce with \<open>(a, b) => a.concat(b)\<close>, and
  \<open>analysisResults\<close> with \<open>(a, b) => ({ ...a, ...b })\<close>: the own properties of \<open>a\<close>, then
  those of \<open>b\<close> over them. An object is the map from its keys to their values.
\<close>

definition messages_reducer :: "'m list \<Rightarrow> 'm list \<Rightarrow> 'm list" where
  "messages_reducer a b = a @ b"

definition currentSteps_reducer :: "string list \<Rightarrow> string list \<Rightarrow> string list" where
  "currentSteps_reducer a b = a @ b"

definition analysisResults_reducer :: "(string \<rightharpoonup> 'v) \<Rightarrow> (string \<rightharpoonup> 'v) \<Rightarrow> (string \<rightharpoonup> 'v)" where
  "analysisResults_reducer a b = a ++ b"

section \<open>Concrete services and specs\<close>

text \<open>
  A service with two registered node functions (a node function is named by its method),
  the spec of \<open>scripts/add-dynamic-short-graph.sh\<close> (\<open>hotSwap_second\<close>), a shorter
  spec under the same name (\<open>hotSwap_first\<close>), the graphs the recording library builds
  from the two, and two specs that list a node with no registered function.
\<close>

definition hotSwap_service ::
    "(string, string recordedGraph, string recordedGraph) GraphBuilderService" where
  "hotSwap_service =
     \<lparr> dynamicGraphs = Map.empty, dynamicGraphBuilders = Map.empty,
       graphSelectionWords = Map.empty,
       nodeFuctionMap = [''inputAnalysisNode'' \<mapsto> ''inputAnalysisNode'',
                         ''awaitApprovalNode'' \<mapsto> ''awaitApprovalNode''] \<rparr>"

definition hotSwap_first :: GraphJsonGraphSpec where
  "hotSwap_first =
     \<lparr> name = ''dynamicShortGraph'', annotationType = Some ''DefaultGraphAnnotation'',
       nodes = Some [''inputAnalysisNode''],
       edges = Some [(''__start__'', ''inputAnalysisNode''), (''inputAnalysisNode'', ''__end__'')],
       selectionWords = Some [''@dynamic-short''] \<rparr>"

definition hotSwap_second :: GraphJsonGraphSpec where
  "hotSwap_second =
     \<lparr> name = ''dynamicShortGraph'', annotationType = Some ''DefaultGraphAnnotation'',
       nodes = Some [''inputAnalysisNode'', ''awaitApprovalNode''],
       edges = Some [(''__start__'', ''inputAnalysisNode''),
                     (''inputAnalysisNode'', ''awaitApprovalNode''),
                     (''awaitApprovalNode'', ''__end__'')],
       selectionWords = Some [''@dynamic-short''] \<rparr>"

definition hotSwap_firstGraph :: "string recordedGraph" where
  "hotSwap_firstGraph =
     \<lparr> annotation = ''DefaultGraphAnnotation'',
       graphNodes = [(''inputAnalysisNode'', ''inputAnalysisNode'')],
       graphEdges = [(''__start__'', ''inputAnalysisNode''), (''inputAnalysisNode'', ''__end__'')] \<rparr>"

definition hotSwap_secondGraph :: "string recordedGraph" where
  "hotSwap_secondGraph =
     \<lparr> annotation = ''DefaultGraphAnnotation'',
       graphNodes = [(''inputAnalysisNode'', ''inputAnalysisNode''),
                     (''awaitApprovalNode'', ''awaitApprovalNode'')],
       graphEdges = [(''__start__'', ''inputAnalysisNode''),
                     (''inputAnalysisNode'', ''awaitApprovalNode''),
                     (''awaitApprovalNode'', ''__end__'')] \<rparr>"




text \<open>
  The service after the first spec is registered, after its graph is compiled, and after
  the second spec is registered on top.
\<close>

definition hotSwap_registered ::
    "(string, string recordedGraph, string recordedGraph) GraphBuilderService" where
  "hotSwap_registered =
     hotSwap_service
       \<lparr> dynamicGraphBuilders := [''dynamicShortGraph'' \<mapsto> hotSwap_firstGraph],
         graphSelectionWords := [''dynamicShortGraph'' \<mapsto> [''@dynamic-short'']] \<rparr>"

definition hotSwap_compiled ::
    "(string, string recordedGraph, string recordedGraph) GraphBuilderService" where
  "hotSwap_compiled =
     hotSwap_registered \<lparr> dynamicGraphs := [''dynamicShortGraph'' \<mapsto> hotSwap_firstGraph] \<rparr>"

definition hotSwap_reregistered ::
    "(string, string recordedGraph, string recordedGraph) GraphBuilderService" where
  "hotSwap_reregistered =
     hotSwap_compiled \<lparr> dynamicGraphBuilders := [''dynamicShortGraph'' \<mapsto> hotSwap_secondGraph] \<rparr>"

section \<open>Concrete stores\<close>

text \<open>
  The store after user \<open>u\<close> made a thread of graph type \<open>g\<close> at clock reading 1000, and
  the store after user \<open>a\<close> made a thread of graph type \<open>x::g\<close> at clock reading
  1758207386950; the random string was \<open>0.4fzyo82mvyr\<close> both times.
\<close>

definition oneThread_store :: store where
  "oneThread_store =
     [(''u::g_thread_1000_82mvyr'',
       \<lparr> id_rec = ''u::g_thread_1000_82mvyr'', userId = ''u'',
         rootThreadId = ''root_thread_1000_82mvyr'', threadId = ''g_thread_1000_82mvyr'',
         graphType = ''g'', createdAt = 1000, lastUpdatedAt = 1000 \<rparr>)]"

definition collide_store :: store where
  "collide_store =
     [(''a::x::g_thread_1758207386950_82mvyr'',
       \<lparr> id_rec = ''a::x::g_thread_1758207386950_82mvyr'', userId = ''a'',
         rootThreadId = ''root_thread_1758207386950_82mvyr'',
         threadId = ''x::g_thread_1758207386950_82mvyr'',
         graphType = ''x::g'', createdAt = 1758207386950, lastUpdatedAt = 1758207386950 \<rparr>)]"

section \<open>A concrete routing setup\<close>

text \<open>
  The point values of the comments of \<open>scoreGraphsAndSelectOne\<close> (1 per word, 10 per
  keyword, 1 per thread, 5 for a thread younger than five minutes), a registry of two
  graphs, a history with one research thread last updated at time 0, and three clocks
  that stand still at one second, two seconds and four hundred seconds.
\<close>

definition example_config :: SelectGraphConfig where
  "example_config =
     \<lparr> fiveMinutes = 300000, pointsForThread = 1, pointsForRecent = 5,
       pointsForWordMatch = 1, pointsForKeyWordMatch = 10 \<rparr>"

definition example_registry :: "(string \<times> string list) list" where
  "example_registry =
     [(''researchGraph'', [''research'', ''patent'']),
      (''monetizationGraph'', [''@monetize'', ''revenue'', ''market''])]"

definition example_history :: threadTypeCounts where
  "example_history =
     [(''researchGraph'',
       \<lparr> count = 1, lastUpdatedAt = 0,
         lastUpdatedThreadId = ''researchGraph_thread_0_abc'',
         lastUpdatedRootId = ''root_thread_0_abc'' \<rparr>)]"

definition clock_1s :: "nat \<Rightarrow> Date" where
  "clock_1s n = 1000"

definition clock_2s :: "nat \<Rightarrow> Date" where
  "clock_2s n = 2000"

definition clock_400s :: "nat \<Rightarrow> Date" where
  "clock_400s n = 400000"

section \<open>Invariants\<close>

text \<open>
  The store as \<open>createThread\<close> builds it: one entry per key, and every record under the key
  made from its own user and thread id.
\<close>

definition storeKeyed :: "store \<Rightarrow> bool" where
  "storeKeyed st =
     (distinct (map fst st)
      \<and> list_all (\<lambda>(k, r). k = makeKey (ThreadRecord.userId r) (ThreadRecord.threadId r)) st)"

text \<open>
  What the summary of \<open>findThreadTypeCountsByUser\<close> says about the records \<open>S\<close> counted so
  far: a graph type has an entry exactly when \<open>S\<close> has a record of it, and the entry
  carries the ids of one with the greatest \<open>lastUpdatedAt\<close>.
\<close>

definition summarizes :: "threadTypeCounts \<Rightarrow> ThreadRecord set \<Rightarrow> bool" where
  "summarizes acc S =
     (\<forall>g. case map_of acc g of
            None \<Rightarrow> (\<forall>r\<in>S. ThreadRecord.graphType r \<noteq> g)
          | Some h \<Rightarrow>
              (\<exists>r\<in>S. ThreadRecord.graphType r = g
                 \<and> ThreadRecord.threadId r = lastUpdatedThreadId h
                 \<and> ThreadRecord.rootThreadId r = lastUpdatedRootId h
                 \<and> ThreadRecord.lastUpdatedAt r = GraphThreadCountAndMostRecentDate.lastUpdatedAt h)
              \<and> (\<forall>r\<in>S. ThreadRecord.graphType r = g \<longrightarrow>
                    ThreadRecord.lastUpdatedAt r \<le> GraphThreadCountAndMostRecentDate.lastUpdatedAt h))"

section \<open>Facts about \<open>Map_set\<close>\<close>

lemma map_of_Map_set: "map_of (Map_set k v m) = (map_of m)(k \<mapsto> v)"
  by (induction m) (auto simp: fun_eq_iff)

lemma keys_Map_set:
  "map fst (Map_set k v m) = (if k \<in> fst ` set m then map fst m else map fst m @ [k])"
  by (induction m) force+

lemma keys_Map_set_present: "map_of m k = Some w \<Longrightarrow> map fst (Map_set k v m) = map fst m"
  by (induction m) (auto split: if_splits)

lemma Map_set_absent: "map_of m k = None \<Longrightarrow> Map_set k v m = m @ [(k, v)]"
  by (induction m) (auto split: if_splits)

section \<open>Claims about the thread store\<close>



section \<open>Claims about initial states\<close>

text \<open>
  Claim C6. \<open>getInitialStateRuntime\<close> never throws: it has a result on every input. For a
  graph-type string that is not one of \<open>GRAPH_TYPES\<close> the result is the default state,
  the object \<open>makeDefault\<close> builds: the given messages, the three given ids, an empty
  \<open>analysisResults\<close>, an empty \<open>currentStep\<close> and no other property. For each of the three
  recognized graph types the result is that type's own initial state, with the given
  messages and ids and the type's own properties at their initial values.
\<close>

theorem getInitialStateRuntime_fallback_and_known:
  "(graphTypeStr \<notin> {''monetizationGraph'', ''researchGraph'', ''concurrentResearchGraph''}
      \<longrightarrow> (getInitialStateRuntime graphTypeStr msgs ids :: ('m, 'v) GraphState)
            = makeDefault msgs ids
          \<and> (getInitialStateRuntime graphTypeStr msgs ids :: ('m, 'v) GraphState)
            = \<lparr> GraphState.activeThreadId = Some (Ids.activeThreadId ids),
                analysisResults = Some Map.empty,
                currentStep = Some [],
                currentSteps = None,
                currentMonetizationAgent = None,
                marketAnalysis = None,
                messages = Some msgs,
                monetizationAgents = None,
                originalDisclosure = None,
                rootId = Some (Ids.rootId ids),
                userId = Some (Ids.userId ids) \<rparr>)
   \<and> (getInitialStateRuntime ''monetizationGraph'' msgs ids :: ('m, 'v) GraphState)
         = makeMonetization msgs ids
   \<and> (getInitialStateRuntime ''monetizationGraph'' msgs ids :: ('m, 'v) GraphState)
         = \<lparr> GraphState.activeThreadId = Some (Ids.activeThreadId ids),
             analysisResults = None,
             currentStep = None,
             currentSteps = None,
             currentMonetizationAgent = Some [],
             marketAnalysis = Some Map.empty,
             messages = Some msgs,
             monetizationAgents = Some [],
             originalDisclosure = Some None,
             rootId = Some (Ids.rootId ids),
             userId = Some (Ids.userId ids) \<rparr>
   \<and> (getInitialStateRuntime ''researchGraph'' msgs ids :: ('m, 'v) GraphState)
         = makeResearch msgs ids
   \<and> (getInitialStateRuntime ''researchGraph'' msgs ids :: ('m, 'v) GraphState)
         = \<lparr> GraphState.activeThreadId = Some (Ids.activeThreadId ids),
             analysisResults = Some Map.empty,
             currentStep = Some [],
             currentSteps = None,
             currentMonetizationAgent = None,
             marketAnalysis = None,
             messages = Some msgs,
             monetizationAgents = None,
             originalDisclosure = None,
             rootId = Some (Ids.rootId ids),
             userId = Some (Ids.userId ids) \<rparr>
   \<and> (getInitialStateRuntime ''concurrentResearchGraph'' msgs ids :: ('m, 'v) GraphState)
         = makeConcurrentResearch msgs ids
   \<and> (getInitialStateRuntime ''concurrentResearchGraph'' msgs ids :: ('m, 'v) GraphState)
         = \<lparr> GraphState.activeThreadId = Some (Ids.activeThreadId ids),
             analysisResults = Some Map.empty,
             currentStep = None,
             currentSteps = Some [],
             currentMonetizationAgent = None,
             marketAnalysis = None,
             messages = Some msgs,
             monetizationAgents = None,
             originalDisclosure = None,
             rootId = Some (Ids.rootId ids),
             userId = Some (Ids.userId ids) \<rparr>"
  by (simp add: getInitialStateRuntime_def isGraphType_def GRAPH_TYPES_def makeInitialState_def
        makeDefault_def makeMonetization_def makeResearch_def makeConcurrentResearch_def
        emptyObject_def)

theorem getInitialStateRuntime_witness:
  "''defaultGraph'' \<notin> {''monetizationGraph'', ''researchGraph'', ''concurrentResearchGraph''}
   \<and> (getInitialStateRuntime ''defaultGraph'' [''hello'']
         \<lparr> Ids.activeThreadId = ''t'', rootId = ''r'', userId = ''u'' \<rparr> :: (string, int) GraphState)
       = makeDefault [''hello''] \<lparr> Ids.activeThreadId = ''t'', rootId = ''r'', userId = ''u'' \<rparr>
   \<and> (getInitialStateRuntime ''defaultGraph'' [''hello'']
         \<lparr> Ids.activeThreadId = ''t'', rootId = ''r'', userId = ''u'' \<rparr> :: (string, int) GraphState)
       = \<lparr> GraphState.activeThreadId = Some ''t'',
           analysisResults = Some Map.empty,
           currentStep = Some [],
           currentSteps = None,
           currentMonetizationAgent = None,
           marketAnalysis = None,
           messages = Some [''hello''],
           monetizationAgents = None,
           originalDisclosure = None,
           rootId = Some ''r'',
           userId = Some ''u'' \<rparr>"
proof -
  have n: "''defaultGraph'' \<notin> {''monetizationGraph'', ''researchGraph'', ''concurrentResearchGraph''}"
    by simp
  note t = getInitialStateRuntime_fallback_and_known
          [where 'v = int, of "''defaultGraph''" "[''hello'']"
              "\<lparr> Ids.activeThreadId = ''t'', rootId = ''r'', userId = ''u'' \<rparr>"]
  from t n have "(getInitialStateRuntime ''defaultGraph'' [''hello'']
         \<lparr> Ids.activeThreadId = ''t'', rootId = ''r'', userId = ''u'' \<rparr> :: (string, int) GraphState)
       = makeDefault [''hello''] \<lparr> Ids.activeThreadId = ''t'', rootId = ''r'', userId = ''u'' \<rparr>"
    by blast
  moreover from t n have "(getInitialStateRuntime ''defaultGraph'' [''hello'']
         \<lparr> Ids.activeThreadId = ''t'', rootId = ''r'', userId = ''u'' \<rparr> :: (string, int) GraphState)
       = \<lparr> GraphState.activeThreadId =
             Some (Ids.activeThreadId \<lparr> Ids.activeThreadId = ''t'', rootId = ''r'', userId = ''u'' \<rparr>),
           analysisResults = Some Map.empty,
           currentStep = Some [],
           currentSteps = None,
           currentMonetizationAgent = None,
           marketAnalysis = None,
           messages = Some [''hello''],
           monetizationAgents = None,
           originalDisclosure = None,
           rootId = Some (Ids.rootId \<lparr> Ids.activeThreadId = ''t'', rootId = ''r'', userId = ''u'' \<rparr>),
           userId = Some (Ids.userId \<lparr> Ids.activeThreadId = ''t'', rootId = ''r'', userId = ''u'' \<rparr>) \<rparr>"
    by blast
  ultimately show ?thesis using n by simp
qed

section \<open>Claims about the reducers\<close>

text \<open>
  Claim C7. The append reducer of \<open>messages\<close> is list concatenation, and reducing \<open>s\<close>
  with the partial \<open>a\<close> and the result with the partial \<open>b\<close> is reducing \<open>s\<close> once with
  the concatenation of \<open>a\<close> and \<open>b\<close>. The shallow-merge reducer of \<open>analysisResults\<close> takes
  each key's value from the partial if the partial has the key and from the current
  object otherwise; it gives the same object in either order of two partials with
  disjoint key sets, and for a key of the partial applied last the value of that partial
  wins.
\<close>

theorem reducers_append_assoc_merge_disjoint_last_wins:
  "messages_reducer (messages_reducer s a) b = messages_reducer s (a @ b)
   \<and> messages_reducer s a = s @ a
   \<and> analysisResults_reducer r p k = (case p k of None \<Rightarrow> r k | Some v \<Rightarrow> Some v)
   \<and> (dom p \<inter> dom q = {}
        \<longrightarrow> analysisResults_reducer (analysisResults_reducer r p) q
            = analysisResults_reducer (analysisResults_reducer r q) p)
   \<and> (\<forall>k \<in> dom q. analysisResults_reducer (analysisResults_reducer r p) q k = q k)"
proof (intro conjI impI ballI)
  show "messages_reducer (messages_reducer s a) b = messages_reducer s (a @ b)"
    by (simp add: messages_reducer_def)
next
  show "messages_reducer s a = s @ a"
    by (simp add: messages_reducer_def)
next
  show "analysisResults_reducer r p k = (case p k of None \<Rightarrow> r k | Some v \<Rightarrow> Some v)"
    by (simp add: analysisResults_reducer_def map_add_def)
next
  assume disj: "dom p \<inter> dom q = {}"
  have "p ++ q = q ++ p"
    using disj by (rule map_add_comm)
  then have "r ++ (p ++ q) = r ++ (q ++ p)"
    by simp
  then show "analysisResults_reducer (analysisResults_reducer r p) q
               = analysisResults_reducer (analysisResults_reducer r q) p"
    by (simp add: analysisResults_reducer_def)
next
  fix k assume "k \<in> dom q"
  then show "analysisResults_reducer (analysisResults_reducer r p) q k = q k"
    by (auto simp: analysisResults_reducer_def map_add_def split: option.splits)
qed

theorem reducers_witness:
  "dom [''noveltyAnalysis'' \<mapsto> (1::int)] \<inter> dom [''impactAnalysis'' \<mapsto> (2::int)] = {}
   \<and> analysisResults_reducer
         (analysisResults_reducer Map.empty [''noveltyAnalysis'' \<mapsto> 1]) [''impactAnalysis'' \<mapsto> 2]
       = analysisResults_reducer
           (analysisResults_reducer Map.empty [''impactAnalysis'' \<mapsto> 2]) [''noveltyAnalysis'' \<mapsto> (1::int)]
   \<and> ''impactAnalysis'' \<in> dom [''impactAnalysis'' \<mapsto> (2::int)]
   \<and> analysisResults_reducer
         (analysisResults_reducer Map.empty [''impactAnalysis'' \<mapsto> 1]) [''impactAnalysis'' \<mapsto> 2]
         ''impactAnalysis'' = Some (2::int)
   \<and> messages_reducer (messages_reducer [''m0''] [''m1'']) [''m2'']
       = messages_reducer [''m0''] ([''m1''] @ [''m2''])
   \<and> messages_reducer (messages_reducer [''m0''] [''m1'']) [''m2''] = [''m0'', ''m1'', ''m2'']"
proof -
  note t1 = reducers_append_assoc_merge_disjoint_last_wins
          [of "[''m0'']" "[''m1'']" "[''m2'']" Map.empty
              "[''noveltyAnalysis'' \<mapsto> (1::int)]" "''k''" "[''impactAnalysis'' \<mapsto> (2::int)]"]
  note t2 = reducers_append_assoc_merge_disjoint_last_wins
          [of "[''m0'']" "[''m1'']" "[''m2'']" Map.empty
              "[''impactAnalysis'' \<mapsto> (1::int)]" "''k''" "[''impactAnalysis'' \<mapsto> (2::int)]"]
  note t3 = reducers_append_assoc_merge_disjoint_last_wins
          [of "[''m0'']" "[''m1'', ''m2'']" "[]" "Map.empty :: string \<rightharpoonup> int"]
  have d: "dom [''noveltyAnalysis'' \<mapsto> (1::int)] \<inter> dom [''impactAnalysis'' \<mapsto> (2::int)] = {}"
    by simp
  from t1 d have c1: "analysisResults_reducer
         (analysisResults_reducer Map.empty [''noveltyAnalysis'' \<mapsto> 1]) [''impactAnalysis'' \<mapsto> 2]
       = analysisResults_reducer
           (analysisResults_reducer Map.empty [''impactAnalysis'' \<mapsto> 2]) [''noveltyAnalysis'' \<mapsto> (1::int)]"
    by blast
  have m: "''impactAnalysis'' \<in> dom [''impactAnalysis'' \<mapsto> (2::int)]"
    by simp
  from t2 m have c2: "analysisResults_reducer
         (analysisResults_reducer Map.empty [''impactAnalysis'' \<mapsto> 1]) [''impactAnalysis'' \<mapsto> 2]
         ''impactAnalysis'' = Some (2::int)"
    by simp
  from t1 have c3: "messages_reducer (messages_reducer [''m0''] [''m1'']) [''m2'']
       = messages_reducer [''m0''] ([''m1''] @ [''m2''])"
    by blast
  from t3 have "messages_reducer [''m0''] [''m1'', ''m2''] = [''m0'', ''m1'', ''m2'']"
    by simp
  with c3 have c4: "messages_reducer (messages_reducer [''m0''] [''m1'']) [''m2'']
       = [''m0'', ''m1'', ''m2'']"
    by simp
  from d c1 m c2 c3 c4 show ?thesis
    by (intro conjI)
qed

section \<open>Claims about the registry\<close>

lemma registerGraphFromSpec_dynamicGraphs:
  "dynamicGraphs (snd (registerGraphFromSpec lib s item)) = dynamicGraphs s"
  by (simp add: registerGraphFromSpec_def split: option.splits sum.splits)

lemma getDynamicGraph_cached:
  "dynamicGraphs s n = Some c \<Longrightarrow> getDynamicGraph lib s n = (Inr (Some c), s)"
  by (simp add: getDynamicGraph_def)

text \<open>
  Whatever the library does, a registration writes nothing to \<open>dynamicGraphs\<close>, so a
  graph compiled before it is the one \<open>getDynamicGraph\<close> returns after it.
\<close>

lemma getDynamicGraph_after_registerGraphFromSpec:
  "dynamicGraphs s n = Some c \<Longrightarrow>
     fst (getDynamicGraph lib (snd (registerGraphFromSpec lib s item)) n) = Inr (Some c)"
  by (simp add: getDynamicGraph_cached registerGraphFromSpec_dynamicGraphs)

text \<open>
  Claim C1 says that registering again under a registered name invalidates the compiled
  graph cached under it, so that the next \<open>getDynamicGraph\<close> compiles the new spec. Run on
  the service: the first spec is registered and compiled, the second spec is registered
  under the same name and its builder is stored, and \<open>getDynamicGraph\<close> then returns the
  graph compiled from the first spec, which differs from the second spec's.
\<close>

theorem getDynamicGraph_after_reregistration_returns_stale_graph:
  "registerGraphFromSpec recordingLibrary hotSwap_service hotSwap_first
     = (Inr (), hotSwap_registered)
   \<and> getDynamicGraph recordingLibrary hotSwap_registered ''dynamicShortGraph''
       = (Inr (Some hotSwap_firstGraph), hotSwap_compiled)
   \<and> registerGraphFromSpec recordingLibrary hotSwap_compiled hotSwap_second
       = (Inr (), hotSwap_reregistered)
   \<and> dynamicGraphBuilders hotSwap_reregistered ''dynamicShortGraph'' = Some hotSwap_secondGraph
   \<and> getDynamicGraph recordingLibrary hotSwap_reregistered ''dynamicShortGraph''
       = (Inr (Some hotSwap_firstGraph), hotSwap_reregistered)
   \<and> hotSwap_firstGraph \<noteq> hotSwap_secondGraph"
  by (simp add: registerGraphFromSpec_def getDynamicGraph_def hotSwap_service_def
        hotSwap_registered_def hotSwap_compiled_def hotSwap_reregistered_def
        hotSwap_first_def hotSwap_second_def recordingLibrary_def annotationsMap_def annotationsMap_get_def
        hotSwap_firstGraph_def hotSwap_secondGraph_def)






text \<open>
  An annotation type that names a property of \<open>Object.prototype\<close> passes the guard; the
  inherited value goes to the constructor, and when the constructor throws on it the
  registration throws.
\<close>

lemma registerGraphFromSpec_inherited_annotation:
  assumes "annotationType item = Some a" "a \<notin> set annotationsMap"
      and "a \<in> set Object_prototype_properties"
      and "StateGraph_new lib (InheritedProperty a) = Inl m"
  shows "registerGraphFromSpec lib s item = (Inl (LibraryError m), s)"
proof -
  from assms(3) have "a \<noteq> []"
    by (auto simp: Object_prototype_properties_def)
  with assms show ?thesis
    by (simp add: registerGraphFromSpec_def annotationsMap_get_def)
qed





section \<open>Claims about thread records\<close>

declare digits.simps [simp del]

lemma createThread_stored:
  "createThread now st d = (r, st') \<Longrightarrow>
     map_of st' (makeKey (CreateThreadDto.userId d) (CreateThreadDto.threadId d)) = Some r"
  by (auto simp: createThread_def Let_def map_of_Map_set split: option.splits)

lemma createThread_existing:
  "map_of st (makeKey (CreateThreadDto.userId d) (CreateThreadDto.threadId d)) = Some r \<Longrightarrow>
     createThread now st d = (r, st)"
  by (simp add: createThread_def)

lemma service_createThread_stored:
  "ThreadStoreService_createThread now st d = (r, st') \<Longrightarrow>
     map_of st' (makeKey (CreateThreadDto.userId d) (CreateThreadDto.threadId d)) = Some r"
  unfolding ThreadStoreService_createThread_def Let_def
  by (drule createThread_stored) simp

lemma service_createThread_existing:
  "map_of st (makeKey (CreateThreadDto.userId d) (CreateThreadDto.threadId d)) = Some r \<Longrightarrow>
     ThreadStoreService_createThread now st d = (r, st)"
  unfolding ThreadStoreService_createThread_def Let_def
  by (rule createThread_existing) simp

lemma service_createThread_fresh:
  "map_of st (makeKey (CreateThreadDto.userId d) (CreateThreadDto.threadId d)) = None \<Longrightarrow>
     ThreadStoreService_createThread now st d =
       (let key = makeKey (CreateThreadDto.userId d) (CreateThreadDto.threadId d);
            c = (case CreateThreadDto.createdAt d of Some c \<Rightarrow> c | None \<Rightarrow> now);
            l = (case CreateThreadDto.lastUpdatedAt d of Some l \<Rightarrow> l | None \<Rightarrow> c);
            r = \<lparr> id_rec = key, userId = CreateThreadDto.userId d,
                  rootThreadId = CreateThreadDto.rootThreadId d,
                  threadId = CreateThreadDto.threadId d,
                  graphType = CreateThreadDto.graphType d,
                  createdAt = c, lastUpdatedAt = l \<rparr>
        in (r, st @ [(key, r)]))"
  by (simp add: ThreadStoreService_createThread_def createThread_def Let_def Map_set_absent)

text \<open>
  Claim C9, as the code has it. Creation is first-writer-wins on the key made of the user
  id and the thread id: after a creation, a second creation with the same user id and
  thread id leaves the store unchanged and returns the record the first one stored or
  found, and the first creation adds at most the one key. The store has no key on
  (userId, graphType), and each request mints its own thread id.
\<close>

theorem createThread_first_writer_wins:
  assumes same: "CreateThreadDto.userId d2 = CreateThreadDto.userId d1"
                "CreateThreadDto.threadId d2 = CreateThreadDto.threadId d1"
  shows "ThreadStoreService_createThread n2
           (snd (ThreadStoreService_createThread n1 st d1)) d2
         = ThreadStoreService_createThread n1 st d1
       \<and> map fst (snd (ThreadStoreService_createThread n1 st d1))
         = (if map_of st (makeKey (CreateThreadDto.userId d1) (CreateThreadDto.threadId d1)) = None
            then map fst st @ [makeKey (CreateThreadDto.userId d1) (CreateThreadDto.threadId d1)]
            else map fst st)"
proof -
  obtain r1 st1 where c1: "ThreadStoreService_createThread n1 st d1 = (r1, st1)"
    by (cases "ThreadStoreService_createThread n1 st d1")
  from service_createThread_stored [OF c1] same
  have "map_of st1 (makeKey (CreateThreadDto.userId d2) (CreateThreadDto.threadId d2)) = Some r1"
    by simp
  then have "ThreadStoreService_createThread n2 st1 d2 = (r1, st1)"
    by (rule service_createThread_existing)
  moreover have "map fst st1
         = (if map_of st (makeKey (CreateThreadDto.userId d1) (CreateThreadDto.threadId d1)) = None
            then map fst st @ [makeKey (CreateThreadDto.userId d1) (CreateThreadDto.threadId d1)]
            else map fst st)"
  proof (cases "map_of st (makeKey (CreateThreadDto.userId d1) (CreateThreadDto.threadId d1))")
    case None
    from service_createThread_fresh [OF None, of n1] c1 show ?thesis
      by (auto simp: Let_def None)
  next
    case (Some r)
    from service_createThread_existing [OF Some, of n1] c1 show ?thesis
      by (simp add: Some)
  qed
  ultimately show ?thesis using c1 by simp
qed

lemma countThread_other:
  "g \<noteq> ThreadRecord.graphType item \<Longrightarrow> map_of (countThread acc item) g = map_of acc g"
  by (simp add: countThread_def Let_def map_of_Map_set split: option.splits)

lemma countThread_new:
  "map_of acc (ThreadRecord.graphType item) = None \<Longrightarrow>
     map_of (countThread acc item) (ThreadRecord.graphType item) =
       Some \<lparr> count = 1, lastUpdatedAt = ThreadRecord.lastUpdatedAt item,
              lastUpdatedThreadId = ThreadRecord.threadId item,
              lastUpdatedRootId = ThreadRecord.rootThreadId item \<rparr>"
  by (simp add: countThread_def map_of_Map_set)

lemma countThread_newer:
  "map_of acc (ThreadRecord.graphType item) = Some e \<Longrightarrow>
   ThreadRecord.lastUpdatedAt item > GraphThreadCountAndMostRecentDate.lastUpdatedAt e \<Longrightarrow>
     map_of (countThread acc item) (ThreadRecord.graphType item) =
       Some \<lparr> count = count e + 1, lastUpdatedAt = ThreadRecord.lastUpdatedAt item,
              lastUpdatedThreadId = ThreadRecord.threadId item,
              lastUpdatedRootId = ThreadRecord.rootThreadId item \<rparr>"
  by (simp add: countThread_def Let_def map_of_Map_set)

lemma countThread_older:
  "map_of acc (ThreadRecord.graphType item) = Some e \<Longrightarrow>
   \<not> ThreadRecord.lastUpdatedAt item > GraphThreadCountAndMostRecentDate.lastUpdatedAt e \<Longrightarrow>
     map_of (countThread acc item) (ThreadRecord.graphType item) =
       Some \<lparr> count = count e + 1,
              lastUpdatedAt = GraphThreadCountAndMostRecentDate.lastUpdatedAt e,
              lastUpdatedThreadId = lastUpdatedThreadId e,
              lastUpdatedRootId = lastUpdatedRootId e \<rparr>"
  by (simp add: countThread_def Let_def map_of_Map_set)

lemma summarizes_countThread:
  assumes inv: "summarizes acc S"
  shows "summarizes (countThread acc item) (insert item S)"
  unfolding summarizes_def
proof
  fix g
  from inv have invg: "case map_of acc g of
            None \<Rightarrow> (\<forall>r\<in>S. ThreadRecord.graphType r \<noteq> g)
          | Some h \<Rightarrow>
              (\<exists>r\<in>S. ThreadRecord.graphType r = g
                 \<and> ThreadRecord.threadId r = lastUpdatedThreadId h
                 \<and> ThreadRecord.rootThreadId r = lastUpdatedRootId h
                 \<and> ThreadRecord.lastUpdatedAt r = GraphThreadCountAndMostRecentDate.lastUpdatedAt h)
              \<and> (\<forall>r\<in>S. ThreadRecord.graphType r = g \<longrightarrow>
                    ThreadRecord.lastUpdatedAt r \<le> GraphThreadCountAndMostRecentDate.lastUpdatedAt h)"
    by (simp add: summarizes_def)
  show "case map_of (countThread acc item) g of
            None \<Rightarrow> (\<forall>r\<in>insert item S. ThreadRecord.graphType r \<noteq> g)
          | Some h \<Rightarrow>
              (\<exists>r\<in>insert item S. ThreadRecord.graphType r = g
                 \<and> ThreadRecord.threadId r = lastUpdatedThreadId h
                 \<and> ThreadRecord.rootThreadId r = lastUpdatedRootId h
                 \<and> ThreadRecord.lastUpdatedAt r = GraphThreadCountAndMostRecentDate.lastUpdatedAt h)
              \<and> (\<forall>r\<in>insert item S. ThreadRecord.graphType r = g \<longrightarrow>
                    ThreadRecord.lastUpdatedAt r \<le> GraphThreadCountAndMostRecentDate.lastUpdatedAt h)"
  proof (cases "g = ThreadRecord.graphType item")
    case False
    with invg show ?thesis
      by (auto simp: countThread_other split: option.splits)
  next
    case True
    show ?thesis
    proof (cases "map_of acc (ThreadRecord.graphType item)")
      case None
      with invg True show ?thesis
        by (auto simp: countThread_new)
    next
      case (Some e)
      show ?thesis
      proof (cases "ThreadRecord.lastUpdatedAt item > GraphThreadCountAndMostRecentDate.lastUpdatedAt e")
        case newer: True
        with invg True Some show ?thesis
          by (force simp: countThread_newer)
      next
        case older: False
        with invg True Some show ?thesis
          by (force simp: countThread_older)
      qed
    qed
  qed
qed

lemma summarizes_foldl:
  "summarizes acc S \<Longrightarrow> summarizes (foldl countThread acc rs) (S \<union> set rs)"
proof (induction rs arbitrary: acc S)
  case Nil
  then show ?case by simp
next
  case (Cons r rs)
  from Cons.IH [OF summarizes_countThread [OF Cons.prems, of r]]
  show ?case by simp
qed

lemma summarizes_findThreadTypeCountsByUser:
  "summarizes (findThreadTypeCountsByUser st u) (set (findThreadsByUser st u))"
  using summarizes_foldl [of "[]" "{}" "findThreadsByUser st u"]
  by (simp add: findThreadTypeCountsByUser_def readThreadsByUser_def summarizes_def)

lemma storeKeyed_lookup:
  assumes "storeKeyed st" "r \<in> snd ` set st"
  shows "map_of st (makeKey (ThreadRecord.userId r) (ThreadRecord.threadId r)) = Some r"
proof -
  from assms(2) obtain k where kr: "(k, r) \<in> set st" by auto
  with assms(1) have "k = makeKey (ThreadRecord.userId r) (ThreadRecord.threadId r)"
    by (auto simp: storeKeyed_def list_all_iff)
  with kr assms(1) show ?thesis
    by (simp add: storeKeyed_def)
qed

text \<open>Every store the operations build from the empty one is keyed.\<close>

lemma storeKeyed_Map_set:
  assumes "storeKeyed st" "k = makeKey (ThreadRecord.userId r) (ThreadRecord.threadId r)"
  shows "storeKeyed (Map_set k r st)"
proof -
  have keys: "distinct (map fst (Map_set k r st))"
    using assms(1) by (auto simp: storeKeyed_def keys_Map_set)
  have "set (Map_set k r st) \<subseteq> insert (k, r) (set st)"
    by (induction st) (auto split: if_splits)
  with assms have "list_all (\<lambda>(k, r). k = makeKey (ThreadRecord.userId r) (ThreadRecord.threadId r))
                     (Map_set k r st)"
    by (auto simp: storeKeyed_def list_all_iff)
  with keys show ?thesis by (simp add: storeKeyed_def)
qed

lemma storeKeyed_empty: "storeKeyed []"
  by (simp add: storeKeyed_def)

lemma storeKeyed_createThread:
  "storeKeyed st \<Longrightarrow> storeKeyed (snd (createThread now st d))"
  by (auto simp: createThread_def Let_def intro!: storeKeyed_Map_set split: option.splits)

lemma storeKeyed_service_createThread:
  "storeKeyed st \<Longrightarrow> storeKeyed (snd (ThreadStoreService_createThread now st d))"
  by (simp add: ThreadStoreService_createThread_def Let_def storeKeyed_createThread)

lemma storeKeyed_updateLastUpdatedAt:
  assumes "storeKeyed st"
  shows "storeKeyed (snd (updateLastUpdatedAt now st d))"
proof (cases "map_of st (makeKey (UpdateLastUpdatedDto.userId d) (UpdateLastUpdatedDto.threadId d))")
  case None
  with assms show ?thesis by (simp add: updateLastUpdatedAt_def)
next
  case (Some cur)
  then have "(makeKey (UpdateLastUpdatedDto.userId d) (UpdateLastUpdatedDto.threadId d), cur) \<in> set st"
    by (rule map_of_SomeD)
  with assms have "makeKey (UpdateLastUpdatedDto.userId d) (UpdateLastUpdatedDto.threadId d)
                     = makeKey (ThreadRecord.userId cur) (ThreadRecord.threadId cur)"
    by (auto simp: storeKeyed_def list_all_iff)
  with assms Some show ?thesis
    by (auto simp: updateLastUpdatedAt_def Let_def intro!: storeKeyed_Map_set)
qed

lemma storeKeyed_getThreadId:
  assumes "storeKeyed st"
  shows "storeKeyed (snd (getThreadId dateNow random36 now st u g summary))"
proof (cases "map_of summary g")
  case None
  from storeKeyed_service_createThread [OF assms]
  show ?thesis
    by (simp add: getThreadId_def None makeNewThread_def Let_def split: prod.splits)
       (metis snd_conv)
next
  case (Some h)
  from storeKeyed_updateLastUpdatedAt [OF assms]
  show ?thesis
    by (simp add: getThreadId_def Some updateLastUpdatedAtFor_def split: prod.splits sum.splits)
       (metis snd_conv)
qed

lemma updateLastUpdatedAtFor_existing:
  "map_of st (makeKey u t) = Some r \<Longrightarrow>
     updateLastUpdatedAtFor now st u t None
       = (Inr (r \<lparr> ThreadRecord.lastUpdatedAt := now \<rparr>),
          Map_set (makeKey u t) (r \<lparr> ThreadRecord.lastUpdatedAt := now \<rparr>) st)"
  by (simp add: updateLastUpdatedAtFor_def updateLastUpdatedAt_def Let_def)

lemma getThreadId_history:
  assumes wf: "storeKeyed st"
      and has: "\<exists>r\<in>set (findThreadsByUser st u). ThreadRecord.graphType r = g"
  shows "\<exists>r\<in>set (findThreadsByUser st u). ThreadRecord.graphType r = g
          \<and> (\<forall>r'\<in>set (findThreadsByUser st u). ThreadRecord.graphType r' = g
                \<longrightarrow> ThreadRecord.lastUpdatedAt r' \<le> ThreadRecord.lastUpdatedAt r)
          \<and> getThreadId dateNow random36 now st u g (findThreadTypeCountsByUser st u)
              = (Inr \<lparr> threadId = ThreadRecord.threadId r, rootId = ThreadRecord.rootThreadId r \<rparr>,
                 Map_set (makeKey u (ThreadRecord.threadId r))
                   (r \<lparr> ThreadRecord.lastUpdatedAt := now \<rparr>) st)
          \<and> map fst (Map_set (makeKey u (ThreadRecord.threadId r))
                   (r \<lparr> ThreadRecord.lastUpdatedAt := now \<rparr>) st) = map fst st"
proof -
  let ?S = "set (findThreadsByUser st u)"
  let ?sum = "findThreadTypeCountsByUser st u"
  have inv: "summarizes ?sum ?S" by (rule summarizes_findThreadTypeCountsByUser)
  from has inv obtain h where h: "map_of ?sum g = Some h"
    by (cases "map_of ?sum g") (auto simp: summarizes_def split: option.splits dest!: spec [of _ g])
  from inv h obtain r where r: "r \<in> ?S" "ThreadRecord.graphType r = g"
      "ThreadRecord.threadId r = lastUpdatedThreadId h"
      "ThreadRecord.rootThreadId r = lastUpdatedRootId h"
      "ThreadRecord.lastUpdatedAt r = GraphThreadCountAndMostRecentDate.lastUpdatedAt h"
    and mx: "\<forall>r'\<in>?S. ThreadRecord.graphType r' = g \<longrightarrow>
                ThreadRecord.lastUpdatedAt r' \<le> GraphThreadCountAndMostRecentDate.lastUpdatedAt h"
    by (auto simp: summarizes_def split: option.splits dest!: spec [of _ g])
  from r(1) have ru: "ThreadRecord.userId r = u" and rin: "r \<in> snd ` set st"
    by (auto simp: findThreadsByUser_def)
  from storeKeyed_lookup [OF wf rin] ru
  have look: "map_of st (makeKey u (ThreadRecord.threadId r)) = Some r" by simp
  have "getThreadId dateNow random36 now st u g ?sum
              = (Inr \<lparr> threadId = ThreadRecord.threadId r, rootId = ThreadRecord.rootThreadId r \<rparr>,
                 Map_set (makeKey u (ThreadRecord.threadId r))
                   (r \<lparr> ThreadRecord.lastUpdatedAt := now \<rparr>) st)"
    using h r(3,4) look
    by (simp add: getThreadId_def updateLastUpdatedAtFor_existing [where r = r])
  moreover have "map fst (Map_set (makeKey u (ThreadRecord.threadId r))
                   (r \<lparr> ThreadRecord.lastUpdatedAt := now \<rparr>) st) = map fst st"
    using look by (rule keys_Map_set_present)
  ultimately show ?thesis using r(1,2,5) mx by auto
qed

lemma getThreadId_no_history:
  assumes none: "\<forall>r\<in>set (findThreadsByUser st u). ThreadRecord.graphType r \<noteq> g"
  shows "getThreadId dateNow random36 now st u g (findThreadTypeCountsByUser st u)
           = (case makeNewThread dateNow random36 now st u g of (ids, st') \<Rightarrow> (Inr ids, st'))"
proof -
  have "summarizes (findThreadTypeCountsByUser st u) (set (findThreadsByUser st u))"
    by (rule summarizes_findThreadTypeCountsByUser)
  with none have "map_of (findThreadTypeCountsByUser st u) g = None"
    by (cases "map_of (findThreadTypeCountsByUser st u) g")
       (auto simp: summarizes_def split: option.splits dest!: spec [of _ g])
  then show ?thesis by (simp add: getThreadId_def)
qed

lemma makeNewThread_fresh:
  assumes "map_of st (makeKey u (g @ ''_'' @ newThreadIdRandomPart dateNow random36)) = None"
  shows "makeNewThread dateNow random36 now st u g
           = (\<lparr> threadId = g @ ''_'' @ newThreadIdRandomPart dateNow random36,
                rootId = ''root_'' @ newThreadIdRandomPart dateNow random36 \<rparr>,
              st @ [(makeKey u (g @ ''_'' @ newThreadIdRandomPart dateNow random36),
                     \<lparr> id_rec = makeKey u (g @ ''_'' @ newThreadIdRandomPart dateNow random36),
                       userId = u,
                       rootThreadId = ''root_'' @ newThreadIdRandomPart dateNow random36,
                       threadId = g @ ''_'' @ newThreadIdRandomPart dateNow random36,
                       graphType = g, createdAt = now, lastUpdatedAt = now \<rparr>)])"
  using assms
  by (simp add: makeNewThread_def Let_def service_createThread_fresh)

lemma makeNewThread_taken:
  assumes "map_of st (makeKey u (g @ ''_'' @ newThreadIdRandomPart dateNow random36)) = Some r"
  shows "makeNewThread dateNow random36 now st u g
           = (\<lparr> threadId = ThreadRecord.threadId r, rootId = ThreadRecord.rootThreadId r \<rparr>, st)"
  using assms
  by (simp add: makeNewThread_def Let_def service_createThread_existing [where r = r])


text \<open>
  Claim C8, as the code has it. On a store keyed as \<open>createThread\<close> keys it, with the
  summary \<open>findThreadTypeCountsByUser\<close> computes from it: when the user has a record of
  the graph type, \<open>getThreadId\<close> returns the thread id and root id of such a record, one
  with the greatest \<open>lastUpdatedAt\<close>, sets that record's \<open>lastUpdatedAt\<close> to the clock
  reading and adds no key to the store. When the user has none, it mints a thread id and
  a root id from the graph type, the clock reading and the random suffix; if no record is
  stored under the key of the user and the minted thread id, it appends a new record with
  these ids and returns them, and if one is stored there, it returns the ids of that
  record and leaves the store as it is. The minted ids are not checked against the ids
  in the store.
\<close>

theorem getThreadId_reuses_thread_or_makes_new:
  assumes wf: "storeKeyed st"
  shows "((\<exists>r\<in>set (findThreadsByUser st u). ThreadRecord.graphType r = g) \<longrightarrow>
           (\<exists>r\<in>set (findThreadsByUser st u). ThreadRecord.graphType r = g
              \<and> (\<forall>r'\<in>set (findThreadsByUser st u). ThreadRecord.graphType r' = g
                    \<longrightarrow> ThreadRecord.lastUpdatedAt r' \<le> ThreadRecord.lastUpdatedAt r)
              \<and> getThreadId dateNow random36 now st u g (findThreadTypeCountsByUser st u)
                  = (Inr \<lparr> threadId = ThreadRecord.threadId r,
                           rootId = ThreadRecord.rootThreadId r \<rparr>,
                     Map_set (makeKey u (ThreadRecord.threadId r))
                       (r \<lparr> ThreadRecord.lastUpdatedAt := now \<rparr>) st)
              \<and> map fst (Map_set (makeKey u (ThreadRecord.threadId r))
                       (r \<lparr> ThreadRecord.lastUpdatedAt := now \<rparr>) st) = map fst st))
       \<and> ((\<forall>r\<in>set (findThreadsByUser st u). ThreadRecord.graphType r \<noteq> g) \<longrightarrow>
            (map_of st (makeKey u (g @ ''_'' @ newThreadIdRandomPart dateNow random36)) = None \<longrightarrow>
               getThreadId dateNow random36 now st u g (findThreadTypeCountsByUser st u)
                 = (Inr \<lparr> threadId = g @ ''_'' @ newThreadIdRandomPart dateNow random36,
                          rootId = ''root_'' @ newThreadIdRandomPart dateNow random36 \<rparr>,
                    st @ [(makeKey u (g @ ''_'' @ newThreadIdRandomPart dateNow random36),
                           \<lparr> id_rec = makeKey u (g @ ''_'' @ newThreadIdRandomPart dateNow random36),
                             userId = u,
                             rootThreadId = ''root_'' @ newThreadIdRandomPart dateNow random36,
                             threadId = g @ ''_'' @ newThreadIdRandomPart dateNow random36,
                             graphType = g, createdAt = now, lastUpdatedAt = now \<rparr>)]))
            \<and> (\<forall>r. map_of st (makeKey u (g @ ''_'' @ newThreadIdRandomPart dateNow random36)) = Some r \<longrightarrow>
                 getThreadId dateNow random36 now st u g (findThreadTypeCountsByUser st u)
                   = (Inr \<lparr> threadId = ThreadRecord.threadId r,
                            rootId = ThreadRecord.rootThreadId r \<rparr>, st)))"
proof (intro conjI impI allI)
  assume "\<exists>r\<in>set (findThreadsByUser st u). ThreadRecord.graphType r = g"
  from getThreadId_history [OF wf this]
  show "\<exists>r\<in>set (findThreadsByUser st u). ThreadRecord.graphType r = g
              \<and> (\<forall>r'\<in>set (findThreadsByUser st u). ThreadRecord.graphType r' = g
                    \<longrightarrow> ThreadRecord.lastUpdatedAt r' \<le> ThreadRecord.lastUpdatedAt r)
              \<and> getThreadId dateNow random36 now st u g (findThreadTypeCountsByUser st u)
                  = (Inr \<lparr> threadId = ThreadRecord.threadId r,
                           rootId = ThreadRecord.rootThreadId r \<rparr>,
                     Map_set (makeKey u (ThreadRecord.threadId r))
                       (r \<lparr> ThreadRecord.lastUpdatedAt := now \<rparr>) st)
              \<and> map fst (Map_set (makeKey u (ThreadRecord.threadId r))
                       (r \<lparr> ThreadRecord.lastUpdatedAt := now \<rparr>) st) = map fst st" .
next
  assume none: "\<forall>r\<in>set (findThreadsByUser st u). ThreadRecord.graphType r \<noteq> g"
     and fresh: "map_of st (makeKey u (g @ ''_'' @ newThreadIdRandomPart dateNow random36)) = None"
  show "getThreadId dateNow random36 now st u g (findThreadTypeCountsByUser st u)
                 = (Inr \<lparr> threadId = g @ ''_'' @ newThreadIdRandomPart dateNow random36,
                          rootId = ''root_'' @ newThreadIdRandomPart dateNow random36 \<rparr>,
                    st @ [(makeKey u (g @ ''_'' @ newThreadIdRandomPart dateNow random36),
                           \<lparr> id_rec = makeKey u (g @ ''_'' @ newThreadIdRandomPart dateNow random36),
                             userId = u,
                             rootThreadId = ''root_'' @ newThreadIdRandomPart dateNow random36,
                             threadId = g @ ''_'' @ newThreadIdRandomPart dateNow random36,
                             graphType = g, createdAt = now, lastUpdatedAt = now \<rparr>)])"
    by (simp add: getThreadId_no_history [OF none] makeNewThread_fresh [OF fresh])
next
  fix r
  assume none: "\<forall>r\<in>set (findThreadsByUser st u). ThreadRecord.graphType r \<noteq> g"
     and taken: "map_of st (makeKey u (g @ ''_'' @ newThreadIdRandomPart dateNow random36)) = Some r"
  show "getThreadId dateNow random36 now st u g (findThreadTypeCountsByUser st u)
                   = (Inr \<lparr> threadId = ThreadRecord.threadId r,
                            rootId = ThreadRecord.rootThreadId r \<rparr>, st)"
    by (simp add: getThreadId_no_history [OF none] makeNewThread_taken [OF taken])
qed


lemmas thread_eval =
  getThreadId_def makeNewThread_def newThreadIdRandomPart_def Number_toString_def digits.simps
  ThreadStoreService_createThread_def createThread_def makeKey_def Let_def
  findThreadTypeCountsByUser_def readThreadsByUser_def findThreadsByUser_def countThread_def
  updateLastUpdatedAtFor_def updateLastUpdatedAt_def

theorem getThreadId_witness:
  "storeKeyed oneThread_store
   \<and> (\<exists>r\<in>set (findThreadsByUser oneThread_store ''u''). ThreadRecord.graphType r = ''g'')
   \<and> fst (getThreadId 2000 ''0.q1w2e3r4t5y'' 2000 oneThread_store ''u'' ''g''
            (findThreadTypeCountsByUser oneThread_store ''u''))
       = Inr \<lparr> threadId = ''g_thread_1000_82mvyr'', rootId = ''root_thread_1000_82mvyr'' \<rparr>
   \<and> map ThreadRecord.graphType (findThreadsByUser oneThread_store ''u'') = [''g'']
   \<and> map_of oneThread_store (makeKey ''u'' (''h'' @ ''_'' @ newThreadIdRandomPart 2000 ''0.q1w2e3r4t5y'')) = None
   \<and> fst (getThreadId 2000 ''0.q1w2e3r4t5y'' 2000 oneThread_store ''u'' ''h''
            (findThreadTypeCountsByUser oneThread_store ''u''))
       = Inr \<lparr> threadId = ''h_thread_2000_3r4t5y'', rootId = ''root_thread_2000_3r4t5y'' \<rparr>"
proof -
  have wf: "storeKeyed oneThread_store"
    by (simp add: storeKeyed_def oneThread_store_def makeKey_def)
  have has: "\<exists>r\<in>set (findThreadsByUser oneThread_store ''u''). ThreadRecord.graphType r = ''g''"
    by (simp add: findThreadsByUser_def oneThread_store_def)
  have none: "\<forall>r\<in>set (findThreadsByUser oneThread_store ''u''). ThreadRecord.graphType r \<noteq> ''h''"
    by (simp add: findThreadsByUser_def oneThread_store_def)
  have part: "newThreadIdRandomPart 2000 ''0.q1w2e3r4t5y'' = ''thread_2000_3r4t5y''"
    by (simp add: newThreadIdRandomPart_def Number_toString_def digits.simps)
  have fresh: "map_of oneThread_store
                 (makeKey ''u'' (''h'' @ ''_'' @ newThreadIdRandomPart 2000 ''0.q1w2e3r4t5y'')) = None"
    by (simp add: part oneThread_store_def makeKey_def)
  have only: "\<And>r. r \<in> set (findThreadsByUser oneThread_store ''u'') \<Longrightarrow>
                 ThreadRecord.threadId r = ''g_thread_1000_82mvyr''
                 \<and> ThreadRecord.rootThreadId r = ''root_thread_1000_82mvyr''"
    by (auto simp: findThreadsByUser_def oneThread_store_def)
  note t = getThreadId_reuses_thread_or_makes_new [OF wf, of "''u''" _ 2000 "''0.q1w2e3r4t5y''" 2000]
  from t [of "''g''"] has obtain r where
    r: "r \<in> set (findThreadsByUser oneThread_store ''u'')"
       "getThreadId 2000 ''0.q1w2e3r4t5y'' 2000 oneThread_store ''u'' ''g''
            (findThreadTypeCountsByUser oneThread_store ''u'')
          = (Inr \<lparr> threadId = ThreadRecord.threadId r, rootId = ThreadRecord.rootThreadId r \<rparr>,
             Map_set (makeKey ''u'' (ThreadRecord.threadId r))
               (r \<lparr> ThreadRecord.lastUpdatedAt := 2000 \<rparr>) oneThread_store)"
    by blast
  from r(2) only [OF r(1)]
  have g1: "fst (getThreadId 2000 ''0.q1w2e3r4t5y'' 2000 oneThread_store ''u'' ''g''
            (findThreadTypeCountsByUser oneThread_store ''u''))
       = Inr \<lparr> threadId = ''g_thread_1000_82mvyr'', rootId = ''root_thread_1000_82mvyr'' \<rparr>"
    by simp
  from t [of "''h''"] none fresh
  have g2: "fst (getThreadId 2000 ''0.q1w2e3r4t5y'' 2000 oneThread_store ''u'' ''h''
            (findThreadTypeCountsByUser oneThread_store ''u''))
       = Inr \<lparr> threadId = ''h_thread_2000_3r4t5y'', rootId = ''root_thread_2000_3r4t5y'' \<rparr>"
    by (simp add: part)
  have types: "map ThreadRecord.graphType (findThreadsByUser oneThread_store ''u'') = [''g'']"
    by (simp add: findThreadsByUser_def oneThread_store_def)
  from wf has types fresh g1 g2 show ?thesis by blast
qed

text \<open>
  Claim C8 as it is stated fails on the code: the minted ids need not differ from all
  existing ids. User \<open>u\<close>, who has a thread of graph type \<open>g\<close>, resolves the new graph
  type \<open>h\<close> at the clock reading and random string of that thread: the new record's root
  id is the root id of the existing record. And user \<open>a\<close> makes a thread of graph type
  \<open>x::g\<close>; then user \<open>a::x\<close>, who has no thread, resolves graph type \<open>g\<close> at the same
  clock reading and random string. The key of the second request is the key of the first
  record, so the call returns the first user's thread id and root id and persists
  nothing.
\<close>

theorem getThreadId_collision_counterexample:
  "map ThreadRecord.rootThreadId (map snd oneThread_store) = [''root_thread_1000_82mvyr'']
   \<and> map ThreadRecord.graphType (findThreadsByUser oneThread_store ''u'') = [''g'']
   \<and> fst (getThreadId 1000 ''0.4fzyo82mvyr'' 1000 oneThread_store ''u'' ''h''
             (findThreadTypeCountsByUser oneThread_store ''u''))
       = Inr \<lparr> threadId = ''h_thread_1000_82mvyr'', rootId = ''root_thread_1000_82mvyr'' \<rparr>
   \<and> getThreadId 1758207386950 ''0.4fzyo82mvyr'' 1758207386950 [] ''a'' ''x::g''
         (findThreadTypeCountsByUser [] ''a'')
       = (Inr \<lparr> threadId = ''x::g_thread_1758207386950_82mvyr'',
                rootId = ''root_thread_1758207386950_82mvyr'' \<rparr>, collide_store)
   \<and> findThreadsByUser collide_store ''a::x'' = []
   \<and> findThreadTypeCountsByUser collide_store ''a::x'' = []
   \<and> getThreadId 1758207386950 ''0.4fzyo82mvyr'' 1758207386951 collide_store ''a::x'' ''g''
         (findThreadTypeCountsByUser collide_store ''a::x'')
       = (Inr \<lparr> threadId = ''x::g_thread_1758207386950_82mvyr'',
                rootId = ''root_thread_1758207386950_82mvyr'' \<rparr>, collide_store)"
  by (simp add: thread_eval collide_store_def oneThread_store_def)

text \<open>
  Claim C9 as it is stated fails on the code. Two requests of user \<open>u\<close> for the new graph
  type \<open>g\<close> both read a summary without \<open>g\<close>; the first creates its thread, and the second,
  still with its summary, creates another one: its random suffix differs, so its key is
  new. The store ends with two records for the user and graph type.
\<close>

theorem createThread_race_counterexample:
  "findThreadTypeCountsByUser [] ''u'' = []
   \<and> getThreadId 1000 ''0.4fzyo82mvyr'' 1000 [] ''u'' ''g'' []
       = (Inr \<lparr> threadId = ''g_thread_1000_82mvyr'', rootId = ''root_thread_1000_82mvyr'' \<rparr>,
          oneThread_store)
   \<and> map ThreadRecord.graphType
        (findThreadsByUser
           (snd (getThreadId 1000 ''0.q1w2e3r4t5y'' 1000 oneThread_store ''u'' ''g'' [])) ''u'')
       = [''g'', ''g'']
   \<and> map ThreadRecord.threadId
        (findThreadsByUser
           (snd (getThreadId 1000 ''0.q1w2e3r4t5y'' 1000 oneThread_store ''u'' ''g'' [])) ''u'')
       = [''g_thread_1000_82mvyr'', ''g_thread_1000_3r4t5y'']"
  by (simp add: thread_eval oneThread_store_def)

theorem createThread_witness:
  "CreateThreadDto.userId
      \<lparr> CreateThreadDto.userId = ''u'', rootThreadId = ''root_thread_1001_3r4t5y'',
        threadId = ''g_thread_1000_82mvyr'', graphType = ''g'',
        createdAt = None, lastUpdatedAt = None \<rparr> = ''u''
   \<and> ThreadStoreService_createThread 1001
      (snd (ThreadStoreService_createThread 1000 []
              \<lparr> CreateThreadDto.userId = ''u'', rootThreadId = ''root_thread_1000_82mvyr'',
                threadId = ''g_thread_1000_82mvyr'', graphType = ''g'',
                createdAt = None, lastUpdatedAt = None \<rparr>))
      \<lparr> CreateThreadDto.userId = ''u'', rootThreadId = ''root_thread_1001_3r4t5y'',
        threadId = ''g_thread_1000_82mvyr'', graphType = ''g'',
        createdAt = None, lastUpdatedAt = None \<rparr>
    = (snd (hd oneThread_store), oneThread_store)"
  using createThread_first_writer_wins
          [of "\<lparr> CreateThreadDto.userId = ''u'', rootThreadId = ''root_thread_1001_3r4t5y'',
                  threadId = ''g_thread_1000_82mvyr'', graphType = ''g'',
                  createdAt = None, lastUpdatedAt = None \<rparr>"
              "\<lparr> CreateThreadDto.userId = ''u'', rootThreadId = ''root_thread_1000_82mvyr'',
                  threadId = ''g_thread_1000_82mvyr'', graphType = ''g'',
                  createdAt = None, lastUpdatedAt = None \<rparr>" 1001 1000 "[]"]
  by (simp add: ThreadStoreService_createThread_def createThread_def makeKey_def Let_def
        oneThread_store_def)

section \<open>Claims about scoring and selection\<close>

lemma foldl_scoreWord:
  "foldl (scoreWord cfg message) a ws =
     a + (\<Sum>w\<leftarrow>ws. if includes_str message w
                   then (if startsWith w ''@'' then pointsForKeyWordMatch cfg
                         else pointsForWordMatch cfg)
                   else 0)"
  by (induction ws arbitrary: a) (auto simp: scoreWord_def)

lemma wordScores_foldl:
  "distinct (map fst acc @ map fst es) \<Longrightarrow>
     foldl (\<lambda>scores (key, arr). Map_set key (countWords cfg message arr) scores) acc es
       = acc @ map (\<lambda>(key, arr). (key, countWords cfg message arr)) es"
proof (induction es arbitrary: acc)
  case Nil
  then show ?case by simp
next
  case (Cons e es)
  obtain key arr where e: "e = (key, arr)" by (cases e)
  from Cons.prems e have absent: "map_of acc key = None"
    by (auto simp: map_of_eq_None_iff)
  from Cons.prems e have "distinct (map fst (acc @ [(key, countWords cfg message arr)]) @ map fst es)"
    by auto
  from Cons.IH [OF this] e absent show ?case
    by (simp add: Map_set_absent)
qed

lemma wordScores_map:
  "distinct (map fst es) \<Longrightarrow>
     wordScores cfg message es = map (\<lambda>(key, arr). (key, countWords cfg message arr)) es"
  using wordScores_foldl [of "[]" es cfg message] by (simp add: wordScores_def)

text \<open>The second loop finds a score under every key it looks up.\<close>

lemma wordScores_has:
  "map_of (foldl (\<lambda>scores (key, arr). Map_set key (countWords cfg message arr) scores) acc es) k = None
     \<longleftrightarrow> map_of acc k = None \<and> k \<notin> fst ` set es"
  by (induction es arbitrary: acc) (auto simp: map_of_Map_set split: if_splits)

lemma wordScores_stores_every_key:
  "k \<in> fst ` set es \<Longrightarrow> map_of (wordScores cfg message es) k \<noteq> None"
  using wordScores_has [of cfg message "[]" es k] by (simp add: wordScores_def)

lemma historyStep_keys:
  "map fst (fst (historyStep cfg clock hist (sc, n) k)) = map fst sc"
  by (auto simp: historyStep_def Let_def keys_Map_set_present split: option.splits)

lemma historyStep_reads:
  "snd (historyStep cfg clock hist (sc, n) k) = (if map_of hist k = None then n else Suc n)"
  by (auto simp: historyStep_def Let_def split: option.splits)

lemma historyStep_other:
  "g \<noteq> k \<Longrightarrow> map_of (fst (historyStep cfg clock hist (sc, n) k)) g = map_of sc g"
  by (auto simp: historyStep_def Let_def map_of_Map_set split: option.splits)

lemma historyStep_same:
  "map_of sc k = Some v \<Longrightarrow>
     map_of (fst (historyStep cfg clock hist (sc, n) k)) k =
       Some (v + (case map_of hist k of None \<Rightarrow> 0
                  | Some h \<Rightarrow> count h * pointsForThread cfg
                      + (if clock n - GraphThreadCountAndMostRecentDate.lastUpdatedAt h < fiveMinutes cfg
                         then pointsForRecent cfg else 0)))"
  by (auto simp: historyStep_def Let_def map_of_Map_set split: option.splits)

lemma foldl_historyStep_keys:
  "map fst (fst (foldl (historyStep cfg clock hist) (sc, n) ks)) = map fst sc"
proof (induction ks arbitrary: sc n)
  case Nil
  then show ?case by simp
next
  case (Cons k ks)
  obtain sc' n' where st: "historyStep cfg clock hist (sc, n) k = (sc', n')"
    by (cases "historyStep cfg clock hist (sc, n) k")
  with historyStep_keys [of cfg clock hist sc n k] have "map fst sc' = map fst sc" by simp
  with Cons.IH [of sc' n'] st show ?case by simp
qed

lemma foldl_historyStep_untouched:
  "g \<notin> set ks \<Longrightarrow> map_of (fst (foldl (historyStep cfg clock hist) (sc, n) ks)) g = map_of sc g"
proof (induction ks arbitrary: sc n)
  case Nil
  then show ?case by simp
next
  case (Cons k ks)
  obtain sc' n' where st: "historyStep cfg clock hist (sc, n) k = (sc', n')"
    by (cases "historyStep cfg clock hist (sc, n) k")
  from Cons.prems have "g \<noteq> k" "g \<notin> set ks" by auto
  with Cons.IH [of sc' n'] historyStep_other [of g k cfg clock hist sc n] st
  show ?case by simp
qed

lemma foldl_historyStep_at:
  assumes "distinct ks" "i < length ks" "map_of sc (ks ! i) = Some v"
  shows "map_of (fst (foldl (historyStep cfg clock hist) (sc, n) ks)) (ks ! i) =
       Some (v + (case map_of hist (ks ! i) of None \<Rightarrow> 0
                  | Some h \<Rightarrow> count h * pointsForThread cfg
                      + (if clock (n + length (filter (\<lambda>k. map_of hist k \<noteq> None) (take i ks)))
                              - GraphThreadCountAndMostRecentDate.lastUpdatedAt h < fiveMinutes cfg
                         then pointsForRecent cfg else 0)))"
  using assms
proof (induction ks arbitrary: sc n i)
  case Nil
  then show ?case by simp
next
  case (Cons k ks)
  obtain sc' n' where st: "historyStep cfg clock hist (sc, n) k = (sc', n')"
    by (cases "historyStep cfg clock hist (sc, n) k")
  from historyStep_reads [of cfg clock hist sc n k] st
  have n': "n' = (if map_of hist k = None then n else Suc n)" by simp
  show ?case
  proof (cases i)
    case 0
    from Cons.prems have "k \<notin> set ks" by simp
    from foldl_historyStep_untouched [OF this, of cfg clock hist sc' n']
    have "map_of (fst (foldl (historyStep cfg clock hist) (sc', n') ks)) k = map_of sc' k" .
    moreover from historyStep_same [of sc k v cfg clock hist n] Cons.prems(3) 0 st
    have "map_of sc' k = Some (v + (case map_of hist k of None \<Rightarrow> 0
                  | Some h \<Rightarrow> count h * pointsForThread cfg
                      + (if clock n - GraphThreadCountAndMostRecentDate.lastUpdatedAt h < fiveMinutes cfg
                         then pointsForRecent cfg else 0)))" by simp
    ultimately show ?thesis unfolding 0 using st by (simp split: option.splits)
  next
    case (Suc j)
    with Cons.prems have j: "j < length ks" "distinct ks" "ks ! j \<noteq> k" by auto
    from historyStep_other [OF j(3), of cfg clock hist sc n] st Cons.prems(3) Suc
    have "map_of sc' (ks ! j) = Some v" by simp
    from Cons.IH [OF j(2) j(1) this, of n'] st n' show ?thesis unfolding Suc by (simp split: option.splits)
  qed
qed


lemma computeScores_keys:
  "distinct (map fst es) \<Longrightarrow> map fst (computeScores cfg clock message es hist) = map fst es"
  by (simp add: computeScores_def foldl_historyStep_keys wordScores_map
        case_prod_unfold comp_def)

text \<open>
  Claim C3. For a registry with distinct names (the entries of an object), the score
  \<open>scoreGraphsAndSelectOne\<close> holds for the graph at position \<open>i\<close> before it selects is
  the score of the specification: the sum over the graph's selection words that the
  message contains of the keyword points for a word starting with \<open>@\<close> and the word points
  otherwise, plus, when the graph has history, its thread count times the thread points
  and the recency points if now minus \<open>lastUpdatedAt\<close> is below the window. Now is the
  clock reading made at that graph's turn: the reading whose number is the count of
  earlier graphs with history. The scores are kept in registry order.
\<close>

theorem computeScores_is_specScore:
  assumes dist: "distinct (map fst graphsAndSelectionWords)"
      and i: "i < length graphsAndSelectionWords"
      and at: "graphsAndSelectionWords ! i = (g, ws)"
  shows "map_of (computeScores cfg clock message graphsAndSelectionWords threadTypeCountsByUser) g
           = Some (specScore cfg
                     (clock (length (filter (\<lambda>k. map_of threadTypeCountsByUser k \<noteq> None)
                                       (take i (map fst graphsAndSelectionWords)))))
                     message ws (map_of threadTypeCountsByUser g))
         \<and> map fst (computeScores cfg clock message graphsAndSelectionWords threadTypeCountsByUser)
             = map fst graphsAndSelectionWords"
proof -
  let ?es = graphsAndSelectionWords
  let ?ks = "map fst ?es"
  let ?sc = "wordScores cfg message ?es"
  have sc: "?sc = map (\<lambda>(key, arr). (key, countWords cfg message arr)) ?es"
    using dist by (rule wordScores_map)
  have ki: "?ks ! i = g" using i at by simp
  have "(g, countWords cfg message ws) \<in> set ?sc"
    unfolding sc using i at by (force simp: in_set_conv_nth)
  moreover have "distinct (map fst ?sc)"
    unfolding sc using dist by (simp add: case_prod_unfold comp_def)
  ultimately have look: "map_of ?sc (?ks ! i) = Some (countWords cfg message ws)"
    using ki by simp
  from foldl_historyStep_at [OF dist _ look, of cfg clock threadTypeCountsByUser 0] i
  have "map_of (computeScores cfg clock message ?es threadTypeCountsByUser) g
          = Some (countWords cfg message ws
                  + (case map_of threadTypeCountsByUser g of None \<Rightarrow> 0
                     | Some h \<Rightarrow> count h * pointsForThread cfg
                        + (if clock (length (filter (\<lambda>k. map_of threadTypeCountsByUser k \<noteq> None)
                                              (take i ?ks)))
                                - GraphThreadCountAndMostRecentDate.lastUpdatedAt h < fiveMinutes cfg
                           then pointsForRecent cfg else 0)))"
    by (simp add: computeScores_def ki cong: option.case_cong)
  then show ?thesis
    using computeScores_keys [OF dist]
    by (simp add: specScore_def countWords_def foldl_scoreWord cong: option.case_cong)
qed

lemma foldl_maxStep_snoc:
  "xs \<noteq> [] \<Longrightarrow>
     \<exists>i<length xs. foldl maxStep (None, None) xs = (Some (fst (xs ! i)), Some (snd (xs ! i)))
        \<and> (\<forall>j<length xs. snd (xs ! j) \<le> snd (xs ! i))
        \<and> (\<forall>j<i. snd (xs ! j) < snd (xs ! i))"
proof (induction xs rule: rev_induct)
  case Nil
  then show ?case by simp
next
  case (snoc x xs)
  obtain k v where x: "x = (k, v)" by (cases x)
  show ?case
  proof (cases "xs = []")
    case True
    with x show ?thesis by (simp add: maxStep_def)
  next
    case False
    from snoc.IH [OF False] obtain i where i: "i < length xs"
      "foldl maxStep (None, None) xs = (Some (fst (xs ! i)), Some (snd (xs ! i)))"
      "\<forall>j<length xs. snd (xs ! j) \<le> snd (xs ! i)"
      "\<forall>j<i. snd (xs ! j) < snd (xs ! i)" by blast
    show ?thesis
    proof (cases "v > snd (xs ! i)")
      case True
      have "length xs < length (xs @ [x])" by simp
      moreover have "foldl maxStep (None, None) (xs @ [x])
            = (Some (fst ((xs @ [x]) ! length xs)), Some (snd ((xs @ [x]) ! length xs)))"
        using i(2) True x by (simp add: maxStep_def)
      moreover have "\<forall>j<length (xs @ [x]). snd ((xs @ [x]) ! j) \<le> snd ((xs @ [x]) ! length xs)"
        using i(3) True x by (auto simp: nth_append less_Suc_eq) 
      moreover have "\<forall>j<length xs. snd ((xs @ [x]) ! j) < snd ((xs @ [x]) ! length xs)"
        using i(3) True x by (auto simp: nth_append intro: le_less_trans)
      ultimately show ?thesis by blast
    next
      case False
      have "i < length (xs @ [x])" using i(1) by simp
      moreover have "foldl maxStep (None, None) (xs @ [x])
            = (Some (fst ((xs @ [x]) ! i)), Some (snd ((xs @ [x]) ! i)))"
        using i(1,2) False x by (simp add: maxStep_def nth_append)
      moreover have "\<forall>j<length (xs @ [x]). snd ((xs @ [x]) ! j) \<le> snd ((xs @ [x]) ! i)"
        using i(1,3) False x by (auto simp: nth_append less_Suc_eq)
      moreover have "\<forall>j<i. snd ((xs @ [x]) ! j) < snd ((xs @ [x]) ! i)"
        using i(1,4) by (auto simp: nth_append)
      ultimately show ?thesis by blast
    qed
  qed
qed

text \<open>
  Claim C4. For a non-empty registry with distinct names, \<open>scoreGraphsAndSelectOne\<close>
  returns the name at a position \<open>i\<close> whose score is greatest and strictly greater than
  the score at every earlier position: the first graph, in registry order, among those
  with the maximal score, also when all scores are zero.
\<close>

theorem scoreGraphsAndSelectOne_first_maximum:
  assumes dist: "distinct (map fst graphsAndSelectionWords)"
      and ne: "graphsAndSelectionWords \<noteq> []"
  shows "\<exists>i<length graphsAndSelectionWords.
           scoreGraphsAndSelectOne cfg clock message graphsAndSelectionWords threadTypeCountsByUser
             = Some (fst (graphsAndSelectionWords ! i))
           \<and> map fst (computeScores cfg clock message graphsAndSelectionWords threadTypeCountsByUser)
               = map fst graphsAndSelectionWords
           \<and> (\<forall>j<length graphsAndSelectionWords.
                 snd (computeScores cfg clock message graphsAndSelectionWords threadTypeCountsByUser ! j)
                 \<le> snd (computeScores cfg clock message graphsAndSelectionWords threadTypeCountsByUser ! i))
           \<and> (\<forall>j<i.
                 snd (computeScores cfg clock message graphsAndSelectionWords threadTypeCountsByUser ! j)
                 < snd (computeScores cfg clock message graphsAndSelectionWords threadTypeCountsByUser ! i))"
proof -
  let ?sc = "computeScores cfg clock message graphsAndSelectionWords threadTypeCountsByUser"
  have keys: "map fst ?sc = map fst graphsAndSelectionWords"
    using dist by (rule computeScores_keys)
  then have len: "length ?sc = length graphsAndSelectionWords"
    by (metis length_map)
  with ne have "?sc \<noteq> []" by auto
  from foldl_maxStep_snoc [OF this] obtain i where i: "i < length ?sc"
      "foldl maxStep (None, None) ?sc = (Some (fst (?sc ! i)), Some (snd (?sc ! i)))"
      "\<forall>j<length ?sc. snd (?sc ! j) \<le> snd (?sc ! i)"
      "\<forall>j<i. snd (?sc ! j) < snd (?sc ! i)" by blast
  have "fst (?sc ! i) = fst (graphsAndSelectionWords ! i)"
    using keys i(1) len by (metis nth_map)
  with i len keys show ?thesis
    unfolding scoreGraphsAndSelectOne_def selectMax_def by auto
qed

text \<open>
  Claim C5, as the code has it. The selection is a function of the configuration, the
  message, the registry, the history and the clock readings of the call, and it depends
  on the readings only through the recency tests: two calls whose readings give every
  test \<open>now - lastUpdatedAt < fiveMinutes\<close> the same outcome for the history's entries
  return the same graph.
\<close>

theorem scoreGraphsAndSelectOne_depends_on_clock_through_recency_only:
  assumes agree: "\<forall>n. \<forall>(g, h) \<in> set threadTypeCountsByUser.
             (clock1 n - GraphThreadCountAndMostRecentDate.lastUpdatedAt h < fiveMinutes cfg)
           = (clock2 n - GraphThreadCountAndMostRecentDate.lastUpdatedAt h < fiveMinutes cfg)"
  shows "scoreGraphsAndSelectOne cfg clock1 message graphsAndSelectionWords threadTypeCountsByUser
       = scoreGraphsAndSelectOne cfg clock2 message graphsAndSelectionWords threadTypeCountsByUser"
proof -
  have step: "historyStep cfg clock1 threadTypeCountsByUser st k
            = historyStep cfg clock2 threadTypeCountsByUser st k" for st k
  proof (cases "map_of threadTypeCountsByUser k")
    case None
    then show ?thesis by (simp add: historyStep_def split: prod.splits)
  next
    case (Some h)
    then have "(k, h) \<in> set threadTypeCountsByUser" by (rule map_of_SomeD)
    with agree have "\<And>n. (clock1 n - GraphThreadCountAndMostRecentDate.lastUpdatedAt h < fiveMinutes cfg)
           = (clock2 n - GraphThreadCountAndMostRecentDate.lastUpdatedAt h < fiveMinutes cfg)"
      by blast
    with Some show ?thesis
      by (simp add: historyStep_def Let_def split: prod.splits option.splits)
  qed
  then have "historyStep cfg clock1 threadTypeCountsByUser = historyStep cfg clock2 threadTypeCountsByUser"
    by (intro ext)
  then show ?thesis
    by (simp add: scoreGraphsAndSelectOne_def computeScores_def)
qed


lemmas score_eval =
  scoreGraphsAndSelectOne_def selectMax_def maxStep_def computeScores_def historyStep_def
  wordScores_def countWords_def scoreWord_def Let_def
  example_config_def example_registry_def example_history_def


text \<open>
  Claim C5 as it is stated fails on the code: with the message, the registry and the
  history fixed, the call made one second after the research thread's last update
  selects the research graph (6 points to 2), and the call made four hundred seconds
  after it selects the monetization graph (1 point to 2).
\<close>

theorem scoreGraphsAndSelectOne_clock_counterexample:
  "scoreGraphsAndSelectOne example_config clock_1s ''revenue market'' example_registry example_history
     = Some ''researchGraph''
   \<and> scoreGraphsAndSelectOne example_config clock_400s ''revenue market'' example_registry example_history
     = Some ''monetizationGraph''"
  by (simp add: score_eval clock_1s_def clock_400s_def)

theorem scoreGraphsAndSelectOne_clock_witness:
  "map (GraphThreadCountAndMostRecentDate.lastUpdatedAt \<circ> snd) example_history = [0]
   \<and> (\<forall>n. (clock_1s n - 0 < fiveMinutes example_config)
           = (clock_2s n - 0 < fiveMinutes example_config))
   \<and> scoreGraphsAndSelectOne example_config clock_1s ''revenue market'' example_registry example_history
     = scoreGraphsAndSelectOne example_config clock_2s ''revenue market'' example_registry example_history"
proof -
  have h: "\<forall>n. \<forall>(g, h) \<in> set example_history.
       (clock_1s n - GraphThreadCountAndMostRecentDate.lastUpdatedAt h < fiveMinutes example_config)
     = (clock_2s n - GraphThreadCountAndMostRecentDate.lastUpdatedAt h < fiveMinutes example_config)"
    by (simp add: example_history_def example_config_def clock_1s_def clock_2s_def)
  have l: "map (GraphThreadCountAndMostRecentDate.lastUpdatedAt \<circ> snd) example_history = [0]"
    by (simp add: example_history_def)
  have c: "\<forall>n. (clock_1s n - 0 < fiveMinutes example_config)
           = (clock_2s n - 0 < fiveMinutes example_config)"
    by (simp add: example_config_def clock_1s_def clock_2s_def)
  from l c scoreGraphsAndSelectOne_depends_on_clock_through_recency_only [OF h]
  show ?thesis by blast
qed

theorem computeScores_witness:
  "distinct (map fst example_registry)
   \<and> (0::nat) < length example_registry
   \<and> example_registry ! 0 = (''researchGraph'', [''research'', ''patent''])
   \<and> map_of (computeScores example_config clock_1s ''@monetize my patent'' example_registry
                example_history) ''researchGraph'' = Some 7
   \<and> map_of (computeScores example_config clock_1s ''@monetize my patent'' example_registry
                example_history) ''monetizationGraph'' = Some 10"
proof -
  have d: "distinct (map fst example_registry)" by (simp add: example_registry_def)
  have l0: "(0::nat) < length example_registry" and l1: "(1::nat) < length example_registry"
    by (simp_all add: example_registry_def)
  have a0: "example_registry ! 0 = (''researchGraph'', [''research'', ''patent''])"
   and a1: "example_registry ! 1 = (''monetizationGraph'', [''@monetize'', ''revenue'', ''market''])"
    by (simp_all add: example_registry_def)
  have s0: "specScore example_config 1000 ''@monetize my patent'' [''research'', ''patent'']
              (map_of example_history ''researchGraph'') = 7"
    by (simp add: specScore_def example_config_def example_history_def)
  have s1: "specScore example_config 1000 ''@monetize my patent''
              [''@monetize'', ''revenue'', ''market'']
              (map_of example_history ''monetizationGraph'') = 10"
    by (simp add: specScore_def example_config_def example_history_def)
  from computeScores_is_specScore [OF d l0 a0, of example_config clock_1s "''@monetize my patent''" example_history]
  have r0: "map_of (computeScores example_config clock_1s ''@monetize my patent'' example_registry
                example_history) ''researchGraph'' = Some 7"
    by (simp add: s0 clock_1s_def)
  from computeScores_is_specScore [OF d l1 a1, of example_config clock_1s "''@monetize my patent''" example_history]
  have r1: "map_of (computeScores example_config clock_1s ''@monetize my patent'' example_registry
                example_history) ''monetizationGraph'' = Some 10"
    by (simp add: s1 clock_1s_def)
  from d l0 a0 r0 r1 show ?thesis by blast
qed

theorem scoreGraphsAndSelectOne_witness:
  "distinct (map fst example_registry) \<and> example_registry \<noteq> []
   \<and> computeScores example_config clock_1s ''hello'' example_registry []
       = [(''researchGraph'', 0), (''monetizationGraph'', 0)]
   \<and> scoreGraphsAndSelectOne example_config clock_1s ''hello'' example_registry []
       = Some ''researchGraph''"
proof -
  have d: "distinct (map fst example_registry)" and ne: "example_registry \<noteq> []"
    by (simp_all add: example_registry_def)
  have sc: "computeScores example_config clock_1s ''hello'' example_registry []
       = [(''researchGraph'', 0), (''monetizationGraph'', 0)]"
    by (simp add: score_eval)
  from scoreGraphsAndSelectOne_first_maximum [OF d ne, of example_config clock_1s "''hello''" "[]"]
  obtain i where i: "i < length example_registry"
      "scoreGraphsAndSelectOne example_config clock_1s ''hello'' example_registry []
         = Some (fst (example_registry ! i))"
      "\<forall>j<i. snd (computeScores example_config clock_1s ''hello'' example_registry [] ! j)
            < snd (computeScores example_config clock_1s ''hello'' example_registry [] ! i)"
    by blast
  have "i = 0"
  proof (rule ccontr)
    assume "i \<noteq> 0"
    with i(1) have i1: "i = 1" by (simp add: example_registry_def)
    from i(3) have "snd (computeScores example_config clock_1s ''hello'' example_registry [] ! 0)
            < snd (computeScores example_config clock_1s ''hello'' example_registry [] ! 1)"
      unfolding i1 by blast
    then show False by (simp add: sc)
  qed
  with i(2) have "scoreGraphsAndSelectOne example_config clock_1s ''hello'' example_registry []
       = Some ''researchGraph''"
    by (simp add: example_registry_def)
  with d ne sc show ?thesis by blast
qed

end
